theory Spec2Isabelle
  imports Complex_Main "HOL-Library.AList"
begin

section \<open>JavaScript values\<close>

text \<open>
  The charting code computes on JavaScript numbers. A number is modelled as a real, or one of
  the three special values of IEEE arithmetic; arithmetic on finite numbers is exact (rounding,
  overflow to infinity and the sign of zero are outside the model), and the special values
  follow the IEEE rules: \<open>NaN\<close> is contagious and compares false with everything.
\<close>

datatype jsnum = Fin real | PosInf | NegInf | NaN

datatype jsval =
    JNumber jsnum
  | JString string
  | JBoolean bool
  | JNull
  | JUndefined
  | JObject "(string \<times> jsval) list"

text \<open>The exceptions the modelled code can raise.\<close>

datatype error = TypeError | RangeError | Error

text \<open>\<open>Number.isFinite\<close>.\<close>

fun isFinite :: "jsnum \<Rightarrow> bool" where
  "isFinite (Fin r) = True"
| "isFinite _ = False"

text \<open>\<open>typeof v === 'number'\<close>.\<close>

fun typeof_number :: "jsval \<Rightarrow> bool" where
  "typeof_number (JNumber n) = True"
| "typeof_number _ = False"

text \<open>Truthiness, as \<open>!!v\<close> computes it.\<close>

fun truthy :: "jsval \<Rightarrow> bool" where
  "truthy (JNumber (Fin r)) = (r \<noteq> 0)"
| "truthy (JNumber NaN) = False"
| "truthy (JNumber _) = True"
| "truthy (JString s) = (s \<noteq> [])"
| "truthy (JBoolean b) = b"
| "truthy JNull = False"
| "truthy JUndefined = False"
| "truthy (JObject kvs) = True"

fun js_sub :: "jsnum \<Rightarrow> jsnum \<Rightarrow> jsnum" where
  "js_sub NaN b = NaN"
| "js_sub a NaN = NaN"
| "js_sub (Fin x) (Fin y) = Fin (x - y)"
| "js_sub (Fin x) PosInf = NegInf"
| "js_sub (Fin x) NegInf = PosInf"
| "js_sub PosInf PosInf = NaN"
| "js_sub PosInf b = PosInf"
| "js_sub NegInf NegInf = NaN"
| "js_sub NegInf b = NegInf"

fun js_mul :: "jsnum \<Rightarrow> jsnum \<Rightarrow> jsnum" where
  "js_mul NaN b = NaN"
| "js_mul a NaN = NaN"
| "js_mul (Fin x) (Fin y) = Fin (x * y)"
| "js_mul (Fin x) PosInf = (if x = 0 then NaN else if 0 < x then PosInf else NegInf)"
| "js_mul (Fin x) NegInf = (if x = 0 then NaN else if 0 < x then NegInf else PosInf)"
| "js_mul PosInf (Fin y) = (if y = 0 then NaN else if 0 < y then PosInf else NegInf)"
| "js_mul NegInf (Fin y) = (if y = 0 then NaN else if 0 < y then NegInf else PosInf)"
| "js_mul PosInf PosInf = PosInf"
| "js_mul PosInf NegInf = NegInf"
| "js_mul NegInf PosInf = NegInf"
| "js_mul NegInf NegInf = PosInf"

text \<open>Division; a zero divisor is the positive zero.\<close>

fun js_div :: "jsnum \<Rightarrow> jsnum \<Rightarrow> jsnum" where
  "js_div NaN b = NaN"
| "js_div a NaN = NaN"
| "js_div (Fin x) (Fin y) =
     (if y \<noteq> 0 then Fin (x / y)
      else if x = 0 then NaN else if 0 < x then PosInf else NegInf)"
| "js_div (Fin x) b = Fin 0"
| "js_div PosInf (Fin y) = (if 0 \<le> y then PosInf else NegInf)"
| "js_div NegInf (Fin y) = (if 0 \<le> y then NegInf else PosInf)"
| "js_div a b = NaN"

text \<open>\<open>Math.floor\<close>.\<close>

fun js_floor :: "jsnum \<Rightarrow> jsnum" where
  "js_floor (Fin x) = Fin (of_int \<lfloor>x\<rfloor>)"
| "js_floor a = a"

text \<open>The comparison \<open>a <= b\<close>.\<close>

fun js_le :: "jsnum \<Rightarrow> jsnum \<Rightarrow> bool" where
  "js_le NaN b = False"
| "js_le a NaN = False"
| "js_le (Fin x) (Fin y) = (x \<le> y)"
| "js_le NegInf b = True"
| "js_le a PosInf = True"
| "js_le a b = False"

text \<open>\<open>Math.min\<close> and \<open>Math.max\<close> of two numbers.\<close>

definition js_min :: "jsnum \<Rightarrow> jsnum \<Rightarrow> jsnum" where
  "js_min a b = (if a = NaN \<or> b = NaN then NaN else if js_le a b then a else b)"

definition js_max :: "jsnum \<Rightarrow> jsnum \<Rightarrow> jsnum" where
  "js_max a b = (if a = NaN \<or> b = NaN then NaN else if js_le a b then b else a)"

text \<open>Reading \<open>xs[i]\<close>: \<open>None\<close> is \<open>undefined\<close>.\<close>

definition nth_js :: "'a list \<Rightarrow> nat \<Rightarrow> 'a option" where
  "nth_js xs i = (if i < length xs then Some (xs ! i) else None)"

section \<open>Accessors (common.ts)\<close>

text \<open>
  A record of the data set is an object: a list of its own properties. An accessor is a
  property name or a function of the record.
\<close>

type_synonym datum = "(string \<times> jsval) list"

datatype accessor = Key string | Fn "datum \<Rightarrow> jsval"

fun attributeValue :: "datum \<Rightarrow> accessor \<Rightarrow> jsval" where
  "attributeValue d (Fn f) = f d"
| "attributeValue d (Key k) = (case map_of d k of Some v \<Rightarrow> v | None \<Rightarrow> JNull)"

definition attributeNumber :: "datum \<Rightarrow> accessor \<Rightarrow> jsnum" where
  "attributeNumber d attribute =
     (let v = attributeValue d attribute
      in case v of JNumber n \<Rightarrow> n | _ \<Rightarrow> NaN)"

section \<open>Statistics (common.ts)\<close>

record Stats =
  count :: nat
  naCount :: nat
  minS :: real
  maxS :: real
  rangeS :: real
  sumS :: real
  mean :: "real option"
  variance :: "real option"
  stdev :: "real option"
  median :: "real option"

text \<open>The finite values of a list of numbers, in order: \<open>.filter((v) => Number.isFinite(v))\<close>.\<close>

fun finiteValues :: "jsnum list \<Rightarrow> real list" where
  "finiteValues [] = []"
| "finiteValues (Fin r # vs) = r # finiteValues vs"
| "finiteValues (v # vs) = finiteValues vs"

definition sortedValuesOf :: "datum list \<Rightarrow> accessor \<Rightarrow> real list" where
  "sortedValuesOf arr attr = sort (finiteValues (map (\<lambda>d. attributeNumber d attr) arr))"

text \<open>
  The median expression of \<open>attrStats\<close>, on the sorted values. \<open>None\<close> is
  \<open>undefined\<close> (the read \<open>sortedValues[0]\<close> of an empty array).
\<close>

definition medianOf :: "real list \<Rightarrow> real option" where
  "medianOf sortedValues =
     (let count = length sortedValues
      in if count = 1 then nth_js sortedValues 0
         else if count mod 2 = 0 then nth_js sortedValues (count div 2)
         else (case (nth_js sortedValues (nat \<lfloor>real count / 2\<rfloor>),
                     nth_js sortedValues (nat \<lceil>real count / 2\<rceil>)) of
                 (Some a, Some b) \<Rightarrow> Some ((a + b) / 2)
               | _ \<Rightarrow> None))"

definition attrStats :: "datum list \<Rightarrow> accessor \<Rightarrow> Stats" where
  "attrStats arr attr =
     (let sortedValues = sortedValuesOf arr attr;
          count = length sortedValues;
          naCount = length arr - count;
          min = (case sortedValues of [] \<Rightarrow> 0 | v # _ \<Rightarrow> v);
          max = (if sortedValues = [] then 0 else last sortedValues);
          range = max - min;
          sum = foldl (\<lambda>s v. s + v) 0 sortedValues;
          mean = (if count = 0 then None else Some (sum / real count));
          variance =
            (case mean of
               None \<Rightarrow> None
             | Some m \<Rightarrow>
                 if count < 2 then None
                 else Some (foldl (\<lambda>s v. s + (v - m)\<^sup>2) 0 sortedValues / (real count - 1)));
          stdev = (case variance of
                     None \<Rightarrow> None
                   | Some v \<Rightarrow> if v \<noteq> 0 then Some (sqrt v) else None);
          median = medianOf sortedValues
      in \<lparr>count = count, naCount = naCount, minS = min, maxS = max, rangeS = range,
          sumS = sum, mean = mean, variance = variance, stdev = stdev, median = median\<rparr>)"

section \<open>Scales (common.ts)\<close>

text \<open>\<open>scaleTo\<close>: \<open>None\<close> is \<open>null\<close>.\<close>

definition scaleTo :: "jsnum option \<Rightarrow> Stats \<Rightarrow> jsnum option" where
  "scaleTo datum rangeStats =
     (case datum of
        None \<Rightarrow> None
      | Some v \<Rightarrow>
          if maxS rangeStats \<noteq> minS rangeStats
          then Some (js_div (js_sub v (Fin (minS rangeStats))) (Fin (rangeS rangeStats)))
          else Some (Fin 0))"

text \<open>
  The optional override of \<open>attrScale\<close>, a \<open>Partial<Stats>\<close>: each field is
  absent or replaces the computed one (\<open>Object.assign\<close>).
\<close>

record StatsOverride =
  o_count :: "nat option"
  o_naCount :: "nat option"
  o_min :: "real option"
  o_max :: "real option"
  o_range :: "real option"
  o_sum :: "real option"
  o_mean :: "real option option"
  o_variance :: "real option option"
  o_stdev :: "real option option"
  o_median :: "real option option"

definition noOverride :: StatsOverride where
  "noOverride = \<lparr>o_count = None, o_naCount = None, o_min = None, o_max = None,
     o_range = None, o_sum = None, o_mean = None, o_variance = None, o_stdev = None,
     o_median = None\<rparr>"

definition assignOverride :: "Stats \<Rightarrow> StatsOverride \<Rightarrow> Stats" where
  "assignOverride s ov =
     \<lparr>count = (case o_count ov of None \<Rightarrow> count s | Some v \<Rightarrow> v),
      naCount = (case o_naCount ov of None \<Rightarrow> naCount s | Some v \<Rightarrow> v),
      minS = (case o_min ov of None \<Rightarrow> minS s | Some v \<Rightarrow> v),
      maxS = (case o_max ov of None \<Rightarrow> maxS s | Some v \<Rightarrow> v),
      rangeS = (case o_range ov of None \<Rightarrow> rangeS s | Some v \<Rightarrow> v),
      sumS = (case o_sum ov of None \<Rightarrow> sumS s | Some v \<Rightarrow> v),
      mean = (case o_mean ov of None \<Rightarrow> mean s | Some v \<Rightarrow> v),
      variance = (case o_variance ov of None \<Rightarrow> variance s | Some v \<Rightarrow> v),
      stdev = (case o_stdev ov of None \<Rightarrow> stdev s | Some v \<Rightarrow> v),
      median = (case o_median ov of None \<Rightarrow> median s | Some v \<Rightarrow> v)\<rparr>"

text \<open>
  A scale is its statistics together with the function it is called as and the accessor it
  was built from. The function \<open>fn\<close> of \<open>attrScale\<close> tests
  \<open>typeof value !== 'number'\<close> on the result of \<open>attributeNumber\<close>.
\<close>

record Scale = Stats +
  call :: "datum \<Rightarrow> jsnum option"
  scaleAttr :: accessor

definition attrScale_fn :: "Stats \<Rightarrow> accessor \<Rightarrow> datum \<Rightarrow> jsnum option" where
  "attrScale_fn stats attr datum =
     (let v = attributeNumber datum attr
      in if \<not> typeof_number (JNumber v) then None else scaleTo (Some v) stats)"

definition attrScale :: "datum list \<Rightarrow> accessor \<Rightarrow> StatsOverride \<Rightarrow> Scale" where
  "attrScale arr attr override =
     (let stats = assignOverride (attrStats arr attr) override
      in Stats.extend stats (Scale.fields (attrScale_fn stats attr) attr))"

section \<open>The lodash functions the binning code calls\<close>

text \<open>
  \<open>_.range\<close>, \<open>_.times\<close>, \<open>_.clamp\<close> and \<open>_.inRange\<close> are library functions;
  they are modelled from the lodash sources (\<open>toFinite\<close>, \<open>toInteger\<close>, \<open>baseRange\<close>,
  \<open>baseTimes\<close>, \<open>baseClamp\<close>, \<open>baseInRange\<close>).
\<close>

definition MAX_INTEGER :: real where
  "MAX_INTEGER = 17976931348623157 * 10 ^ 292"

definition MAX_SAFE_INTEGER :: real where
  "MAX_SAFE_INTEGER = 9007199254740991"

definition MAX_ARRAY_LENGTH :: real where
  "MAX_ARRAY_LENGTH = 4294967295"

definition toFinite :: "jsnum \<Rightarrow> real" where
  "toFinite v = (case v of Fin r \<Rightarrow> r | NaN \<Rightarrow> 0 | PosInf \<Rightarrow> MAX_INTEGER | NegInf \<Rightarrow> - MAX_INTEGER)"

definition toInteger :: "jsnum \<Rightarrow> real" where
  "toInteger v = (let r = toFinite v in if 0 \<le> r then of_int \<lfloor>r\<rfloor> else of_int \<lceil>r\<rceil>)"

text \<open>
  \<open>_.range(0, end)\<close>: the step is 1 when \<open>0 < end\<close> and \<open>-1\<close> otherwise, and
  \<open>Array(length)\<close> raises a \<open>RangeError\<close> when the length is no array length.
\<close>

definition range0 :: "jsnum \<Rightarrow> error + int list" where
  "range0 end =
     (let e = toFinite end;
          step = (if 0 < e then 1 else - 1);
          len = max \<lceil>(e - 0) / real_of_int step\<rceil> 0
      in if MAX_ARRAY_LENGTH < of_int len then Inl RangeError
         else Inr (map (\<lambda>i. 0 + int i * step) [0..<nat len]))"

text \<open>\<open>_.times(n, iteratee)\<close>.\<close>

definition times :: "jsnum \<Rightarrow> (nat \<Rightarrow> 'a) \<Rightarrow> 'a list" where
  "times n iteratee =
     (let m = toInteger n
      in if m < 1 \<or> MAX_SAFE_INTEGER < m then []
         else map iteratee [0..<nat \<lfloor>min m MAX_ARRAY_LENGTH\<rfloor>])"

definition baseClamp :: "jsnum \<Rightarrow> jsnum \<Rightarrow> jsnum \<Rightarrow> jsnum" where
  "baseClamp number lower upper =
     (if number \<noteq> NaN
      then (let n1 = (if js_le number upper then number else upper)
            in if js_le lower n1 then n1 else lower)
      else number)"

definition clamp :: "jsnum \<Rightarrow> jsnum \<Rightarrow> jsnum \<Rightarrow> jsnum" where
  "clamp number lower upper =
     (let upper1 = (if upper = NaN then Fin 0 else upper);
          lower1 = (if lower = NaN then Fin 0 else lower)
      in baseClamp number lower1 upper1)"

text \<open>
  Reading \<open>bins[i]\<close> with a number \<open>i\<close>: an element exists only at a non-negative
  integer below the length.
\<close>

definition arrayIndex :: "jsnum \<Rightarrow> nat option" where
  "arrayIndex v =
     (case v of
        Fin r \<Rightarrow> if 0 \<le> r \<and> r = of_int \<lfloor>r\<rfloor> then Some (nat \<lfloor>r\<rfloor>) else None
      | _ \<Rightarrow> None)"

text \<open>\<open>Array.prototype.reduce\<close> with a callback that may raise.\<close>

fun reduce :: "('s \<Rightarrow> 'a \<Rightarrow> error + 's) \<Rightarrow> 'a list \<Rightarrow> 's \<Rightarrow> error + 's" where
  "reduce f [] s = Inr s"
| "reduce f (x # xs) s = (case f s x of Inl e \<Rightarrow> Inl e | Inr s1 \<Rightarrow> reduce f xs s1)"

section \<open>One-dimensional binning (BinStats1d.tsx)\<close>

record Bin1d =
  xBin :: int
  data :: "datum list"

text \<open>
  The width of a bin and the number of bins. The numbers of the model are exact: the cube
  root, the square root behind the standard deviation and the quotients are not rounded to
  doubles. The bin count of the model is that of the code when the quotient
  \<open>range / xBinWidth\<close> is not within the rounding error of an integer and no
  intermediate value overflows or underflows.
\<close>

definition xBinWidth1d :: "Scale \<Rightarrow> nat \<Rightarrow> jsnum" where
  "xBinWidth1d xStatScale n =
     (case stdev xStatScale of
        Some sd \<Rightarrow> js_div (Fin (3.5 * sd)) (Fin (real n powr (1 / 3)))
      | None \<Rightarrow> js_div (Fin (rangeS xStatScale)) (Fin 20))"

definition xBins1d :: "datum list \<Rightarrow> accessor \<Rightarrow> jsnum" where
  "xBins1d points x =
     (let xStatScale = attrScale points x noOverride;
          xBinWidth = xBinWidth1d xStatScale (length points)
      in js_floor (js_div (Fin (rangeS xStatScale)) xBinWidth))"

definition start1d :: "jsnum \<Rightarrow> error + Bin1d list" where
  "start1d xBins =
     (case range0 xBins of
        Inl e \<Rightarrow> Inl e
      | Inr is \<Rightarrow> Inr (map (\<lambda>i. \<lparr>xBin = i, data = []\<rparr>) is))"

text \<open>
  The callback of the reduction over the points. \<open>bins[xBin].data\<close> raises a
  \<open>TypeError\<close> when \<open>bins[xBin]\<close> is \<open>undefined\<close>.
\<close>

definition binStep1d :: "Scale \<Rightarrow> jsnum \<Rightarrow> Bin1d list \<Rightarrow> datum \<Rightarrow> error + Bin1d list" where
  "binStep1d xStatScale xBins bins p =
     (case call xStatScale p of
        None \<Rightarrow> Inr bins
      | Some xValue \<Rightarrow>
          if \<not> isFinite xValue then Inr bins
          else
            (let xBin = clamp (js_floor (js_mul xValue xBins)) (Fin 0) (js_sub xBins (Fin 1))
             in case arrayIndex xBin of
                  None \<Rightarrow> Inl TypeError
                | Some i \<Rightarrow>
                    (case nth_js bins i of
                       None \<Rightarrow> Inl TypeError
                     | Some b \<Rightarrow> Inr (bins[i := b\<lparr>data := data b @ [p]\<rparr>]))))"

text \<open>
  The hook that memoises \<open>start\<close>, with \<open>xBins\<close> its one dependency: what it holds
  after a render. The reduction over the points returns the array \<open>start\<close> itself, and it
  has pushed every record into the \<open>data\<close> array of a bin of \<open>start\<close>; so the array
  the hook holds after the reduction is the array of the filled bins.
\<close>

record StartHook =
  startDeps :: jsnum
  startValue :: "Bin1d list"

text \<open>
  \<open>React.useMemo(() => _.range(0, xBins).map(...), [xBins])\<close>. The first render computes
  the array; a later render returns the array the hook holds when \<open>xBins\<close> is the number
  of the render before (compared by \<open>Object.is\<close>, for which \<open>NaN\<close> is \<open>NaN\<close>) and
  computes a new one otherwise. \<open>None\<close> is the hook of a component that has not rendered.
\<close>

definition useMemo_start :: "StartHook option \<Rightarrow> jsnum \<Rightarrow> error + Bin1d list" where
  "useMemo_start hook xBins =
     (case hook of
        None \<Rightarrow> start1d xBins
      | Some h \<Rightarrow> if startDeps h = xBins then Inr (startValue h) else start1d xBins)"

text \<open>
  A render of the component with an array \<open>points\<close> that is not the array of the render
  before, so that the scale and the bins are computed again: the bins, and the hook of
  \<open>start\<close> after the render.
\<close>

definition render1d ::
  "StartHook option \<Rightarrow> datum list \<Rightarrow> accessor \<Rightarrow> error + (Bin1d list \<times> StartHook)" where
  "render1d hook points x =
     (let xStatScale = attrScale points x noOverride;
          xBins = xBins1d points x
      in case useMemo_start hook xBins of
           Inl e \<Rightarrow> Inl e
         | Inr start \<Rightarrow>
             (case reduce (binStep1d xStatScale xBins) points start of
                Inl e \<Rightarrow> Inl e
              | Inr bins \<Rightarrow> Inr (bins, \<lparr>startDeps = xBins, startValue = bins\<rparr>)))"

text \<open>
  The bins of the first render of the component, and those bins merged with the statistics of
  the summary dimension (the value handed to the data context by the first render).
\<close>

definition bins1d :: "datum list \<Rightarrow> accessor \<Rightarrow> error + Bin1d list" where
  "bins1d points x =
     (case render1d None points x of
        Inl e \<Rightarrow> Inl e
      | Inr (bins, hook) \<Rightarrow> Inr bins)"

definition BinStats1d :: "datum list \<Rightarrow> accessor \<Rightarrow> accessor \<Rightarrow> error + (Bin1d \<times> Stats) list" where
  "BinStats1d points x summaryDimension =
     (case bins1d points x of
        Inl e \<Rightarrow> Inl e
      | Inr bins \<Rightarrow> Inr (map (\<lambda>bin. (bin, attrStats (data bin) summaryDimension)) bins))"

section \<open>Two-dimensional binning (BinStats2d.tsx)\<close>

text \<open>
  The fields of a two-dimensional bin are \<open>xBin\<close>, \<open>yBin\<close> and \<open>data\<close> in the
  source; they carry a suffix here, next to those of \<open>Bin1d\<close>. The bins are the values of
  an object whose keys are the strings \<open>`${xBin},${yBin}`\<close>; a key is modelled as the pair
  of numbers it prints, and the object as the list of its properties in insertion order.
\<close>

record Bin2d =
  xBin2 :: int
  yBin2 :: int
  data2 :: "datum list"

datatype binKey = BinKey jsnum jsnum

definition fdWidth :: "Scale \<Rightarrow> nat \<Rightarrow> jsnum" where
  "fdWidth statScale n =
     (case stdev statScale of
        Some sd \<Rightarrow> js_div (Fin (3.5 * sd)) (Fin (real n powr (1 / 3)))
      | None \<Rightarrow> js_div (Fin (rangeS statScale)) (Fin 20))"

definition xBinWidth2d :: "Scale \<Rightarrow> nat \<Rightarrow> jsnum" where
  "xBinWidth2d xStatScale n =
     js_min (js_div (Fin (rangeS xStatScale)) (Fin 20))
            (js_max (fdWidth xStatScale n) (js_div (Fin (rangeS xStatScale)) (Fin 100)))"

definition yBinWidth2d :: "Scale \<Rightarrow> nat \<Rightarrow> jsnum" where
  "yBinWidth2d yStatScale n =
     js_max (fdWidth yStatScale n) (js_div (Fin (rangeS yStatScale)) (Fin 100))"

definition xBins2d :: "datum list \<Rightarrow> accessor \<Rightarrow> jsnum" where
  "xBins2d points x =
     (let xStatScale = attrScale points x noOverride
      in js_floor (js_div (Fin (rangeS xStatScale)) (xBinWidth2d xStatScale (length points))))"

definition yBins2d :: "datum list \<Rightarrow> accessor \<Rightarrow> jsnum" where
  "yBins2d points y =
     (let yStatScale = attrScale points y noOverride
      in js_floor (js_div (Fin (rangeS yStatScale)) (yBinWidth2d yStatScale (length points))))"

definition start2d :: "jsnum \<Rightarrow> jsnum \<Rightarrow> (binKey \<times> Bin2d) list" where
  "start2d xBins yBins =
     foldl (\<lambda>obj (i, j).
              AList.update (BinKey (Fin (real i)) (Fin (real j)))
                \<lparr>xBin2 = int i, yBin2 = int j, data2 = []\<rparr> obj)
       []
       (concat (times xBins (\<lambda>i. times yBins (\<lambda>j. (i, j)))))"

definition binStep2d ::
  "Scale \<Rightarrow> Scale \<Rightarrow> jsnum \<Rightarrow> jsnum \<Rightarrow> (binKey \<times> Bin2d) list \<Rightarrow> datum
     \<Rightarrow> error + (binKey \<times> Bin2d) list" where
  "binStep2d xStatScale yStatScale xBins yBins bins p =
     (case (call xStatScale p, call yStatScale p) of
        (Some xValue, Some yValue) \<Rightarrow>
          if \<not> isFinite xValue \<or> \<not> isFinite yValue then Inr bins
          else
            (let xBin = clamp (js_floor (js_mul xValue xBins)) (Fin 0) (js_sub xBins (Fin 1));
                 yBin = clamp (js_floor (js_mul yValue yBins)) (Fin 0) (js_sub yBins (Fin 1))
             in case map_of bins (BinKey xBin yBin) of
                  None \<Rightarrow> Inl TypeError
                | Some b \<Rightarrow>
                    Inr (AList.update (BinKey xBin yBin) (b\<lparr>data2 := data2 b @ [p]\<rparr>) bins))
      | _ \<Rightarrow> Inr bins)"

text \<open>
  The bins of the first render of the component, for which \<open>start\<close> is computed afresh.
  The component memoises \<open>start\<close> on \<open>xBins\<close> and \<open>yBins\<close> and pushes into its bins,
  as the one-dimensional component does.
\<close>

definition bins2d :: "datum list \<Rightarrow> accessor \<Rightarrow> accessor \<Rightarrow> error + Bin2d list" where
  "bins2d points x y =
     (let xStatScale = attrScale points x noOverride;
          yStatScale = attrScale points y noOverride;
          xBins = xBins2d points x;
          yBins = yBins2d points y
      in case reduce (binStep2d xStatScale yStatScale xBins yBins) points (start2d xBins yBins) of
           Inl e \<Rightarrow> Inl e
         | Inr bins \<Rightarrow> Inr (map snd bins))"

definition BinStats2d ::
  "datum list \<Rightarrow> accessor \<Rightarrow> accessor \<Rightarrow> accessor \<Rightarrow> error + (Bin2d \<times> Stats) list" where
  "BinStats2d points x y summaryDimension =
     (case bins2d points x y of
        Inl e \<Rightarrow> Inl e
      | Inr bins \<Rightarrow> Inr (map (\<lambda>bin. (bin, attrStats (data2 bin) summaryDimension)) bins))"

section \<open>Line compression (LineSegments.tsx)\<close>

text \<open>
  The coordinates of a segment point are the fields \<open>x\<close> and \<open>y\<close> of the source, named
  \<open>px\<close> and \<open>py\<close> here. The first point of a line has no \<open>angle\<close> and no
  \<open>gradientAngle\<close>: \<open>None\<close> is \<open>undefined\<close>.
\<close>

record SegmentPoint =
  xComponent :: real
  yComponent :: real
  distance :: real
  px :: real
  py :: real
  index :: nat
  angle :: "real option"
  color1 :: string
  color2 :: string
  gradientAngle :: "real option"
  flipGradient :: bool
  continuous :: bool

text \<open>An element of \<open>compressed\<close>: a single segment point, or an array of them.\<close>

datatype segment = Point SegmentPoint | Run "SegmentPoint list"

text \<open>The properties of the component, with their defaults filled in.\<close>

record LineSegmentsProps =
  continuity :: "accessor option"
  resolution :: real
  strokeWidth :: real
  colorResolution :: real

text \<open>What the component reads from the coordinate context.\<close>

record Coordinates =
  xScale :: "(datum \<Rightarrow> jsnum option) option"
  yScale :: "(datum \<Rightarrow> jsnum option) option"
  colorScale :: "(datum \<Rightarrow> string) option"
  width :: real
  height :: real

text \<open>
  The two colour metrics of the chroma library are parameters of the model: total functions
  of two colour strings.
\<close>

record Chroma =
  deltaE :: "string \<Rightarrow> string \<Rightarrow> real"
  chromaDistance :: "string \<Rightarrow> string \<Rightarrow> real"

definition ANGLE_RESOLUTION :: real where
  "ANGLE_RESOLUTION = 5"

text \<open>\<open>last(arr)\<close>, that is \<open>arr[arr.length - 1]\<close>.\<close>

definition last_js :: "'a list \<Rightarrow> 'a option" where
  "last_js arr = (if arr = [] then None else nth_js arr (length arr - 1))"

definition dissimilarColors :: "Chroma \<Rightarrow> SegmentPoint \<Rightarrow> real \<Rightarrow> bool" where
  "dissimilarColors chroma sp colorRes =
     (if color1 sp = color2 sp then False
      else if color1 sp \<noteq> [] \<and> color2 sp \<noteq> []
      then (let diff = min (deltaE chroma (color1 sp) (color2 sp))
                           (chromaDistance chroma (color1 sp) (color2 sp));
                gradient = diff * distance sp
            in colorRes < gradient)
      else True)"

text \<open>\<open>Math.atan2\<close> on finite numbers.\<close>

definition atan2 :: "real \<Rightarrow> real \<Rightarrow> real" where
  "atan2 dy dx =
     (if 0 < dx then arctan (dy / dx)
      else if dx < 0 \<and> 0 \<le> dy then arctan (dy / dx) + pi
      else if dx < 0 then arctan (dy / dx) - pi
      else if 0 < dy then pi / 2
      else if dy < 0 then - (pi / 2)
      else 0)"

text \<open>\<open>_.inRange(number, start, end)\<close>.\<close>

definition inRange :: "real \<Rightarrow> real \<Rightarrow> real \<Rightarrow> bool" where
  "inRange number start end = (min start end \<le> number \<and> number < max start end)"

definition onScreen :: "Coordinates \<Rightarrow> real \<Rightarrow> real \<Rightarrow> bool" where
  "onScreen ctx x y = (inRange x 0 (width ctx) \<and> inRange y 0 (height ctx))"

definition resolutionForThisPoint :: "Coordinates \<Rightarrow> LineSegmentsProps \<Rightarrow> real \<Rightarrow> real \<Rightarrow> real" where
  "resolutionForThisPoint ctx props x y = (if onScreen ctx x y then resolution props else 50)"

definition angleResolutionForThisPoint :: "Coordinates \<Rightarrow> real \<Rightarrow> real \<Rightarrow> real" where
  "angleResolutionForThisPoint ctx x y = (if onScreen ctx x y then ANGLE_RESOLUTION else 20)"

text \<open>The segment point built for a point at \<open>(x, y)\<close> that follows \<open>lastPoint\<close>.\<close>

definition newPointOf ::
  "SegmentPoint \<Rightarrow> real \<Rightarrow> real \<Rightarrow> nat \<Rightarrow> string \<Rightarrow> bool \<Rightarrow> SegmentPoint" where
  "newPointOf lastPoint x y i color cont =
     (let d = sqrt ((x - px lastPoint)\<^sup>2 + (y - py lastPoint)\<^sup>2);
          a = atan2 (y - py lastPoint) (x - px lastPoint) * 180 / pi
      in \<lparr>xComponent = x - px lastPoint, yComponent = y - py lastPoint, distance = d,
          px = x, py = y, index = i, angle = Some a, color1 = color2 lastPoint,
          color2 = color, gradientAngle = Some a, flipGradient = False, continuous = cont\<rparr>)"

text \<open>
  The value \<open>keep\<close>, as a truth value. The conjunct \<open>lastPoint.angle && ...\<close> is
  falsy when the angle of the last point is \<open>undefined\<close> or zero.
\<close>

definition keep :: "Chroma \<Rightarrow> Coordinates \<Rightarrow> LineSegmentsProps \<Rightarrow> SegmentPoint \<Rightarrow> SegmentPoint \<Rightarrow> bool" where
  "keep chroma ctx props lastPoint newPoint =
     (strokeWidth props \<le> distance newPoint \<and>
      (dissimilarColors chroma newPoint (colorResolution props) \<or>
       continuous newPoint \<noteq> continuous lastPoint \<or>
       resolutionForThisPoint ctx props (px newPoint) (py newPoint) \<le> distance newPoint \<or>
       (case angle lastPoint of
          None \<Rightarrow> False
        | Some la \<Rightarrow>
            la \<noteq> 0 \<and>
            (case angle newPoint of
               None \<Rightarrow> False
             | Some a \<Rightarrow>
                 angleResolutionForThisPoint ctx (px newPoint) (py newPoint) \<le> \<bar>la - a\<bar>))))"

text \<open>The point that ends \<open>compressed\<close>; \<open>None\<close> is \<open>undefined\<close>.\<close>

definition lastPointOf :: "segment list \<Rightarrow> SegmentPoint option" where
  "lastPointOf compressed =
     (case last_js compressed of
        None \<Rightarrow> None
      | Some (Run ps) \<Rightarrow> last_js ps
      | Some (Point p) \<Rightarrow> Some p)"

text \<open>The colour and the continuity flag of a point.\<close>

definition colorOf :: "Coordinates \<Rightarrow> datum \<Rightarrow> string" where
  "colorOf ctx point = (case colorScale ctx of Some cs \<Rightarrow> cs point | None \<Rightarrow> ''black'')"

definition continuousOf :: "LineSegmentsProps \<Rightarrow> datum \<Rightarrow> bool" where
  "continuousOf props point =
     (case continuity props of Some c \<Rightarrow> truthy (attributeValue point c) | None \<Rightarrow> True)"

text \<open>The segment point that starts an empty \<open>compressed\<close>.\<close>

definition firstPointOf :: "real \<Rightarrow> real \<Rightarrow> nat \<Rightarrow> string \<Rightarrow> SegmentPoint" where
  "firstPointOf x y i color =
     \<lparr>xComponent = 0, yComponent = 0, distance = 0, px = x, py = y, index = i,
      angle = None, color1 = color, color2 = color, gradientAngle = None,
      flipGradient = False, continuous = False\<rparr>"

text \<open>
  The callback of the reduction, applied to a point and its index. Reading a field of an
  \<open>undefined\<close> last point raises a \<open>TypeError\<close>.
\<close>

definition segmentStep ::
  "Chroma \<Rightarrow> Coordinates \<Rightarrow> LineSegmentsProps \<Rightarrow> (datum \<Rightarrow> jsnum option) \<Rightarrow> (datum \<Rightarrow> jsnum option)
     \<Rightarrow> segment list \<Rightarrow> nat \<times> datum \<Rightarrow> error + segment list" where
  "segmentStep chroma ctx props xs ys compressed ip =
     (case ip of (i, point) \<Rightarrow>
        (case (xs point, ys point) of
           (Some (Fin x), Some (Fin y)) \<Rightarrow>
             (let color = colorOf ctx point
              in if compressed = [] then Inr [Point (firstPointOf x y i color)]
                 else
                   (case lastPointOf compressed of
                      None \<Rightarrow> Inl TypeError
                    | Some lastPoint \<Rightarrow>
                        (let newPoint = newPointOf lastPoint x y i color (continuousOf props point)
                         in if keep chroma ctx props lastPoint newPoint
                            then (if \<not> dissimilarColors chroma newPoint (colorResolution props) \<and>
                                     \<not> dissimilarColors chroma lastPoint (colorResolution props)
                                  then (case last compressed of
                                          Run ps \<Rightarrow> Inr (butlast compressed @ [Run (ps @ [newPoint])])
                                        | Point q \<Rightarrow> Inr (compressed @ [Run [lastPoint, newPoint]]))
                                  else Inr (compressed @ [Point newPoint]))
                            else Inr compressed)))
         | _ \<Rightarrow> Inr compressed))"

text \<open>
  The memoised value \<open>compressed\<close>. The component throws before it when the context has
  no \<open>xScale\<close> or no \<open>yScale\<close>.
\<close>

definition compressedOf ::
  "Chroma \<Rightarrow> Coordinates \<Rightarrow> LineSegmentsProps \<Rightarrow> datum list \<Rightarrow> error + segment list" where
  "compressedOf chroma ctx props points =
     (case (xScale ctx, yScale ctx) of
        (Some xs, Some ys) \<Rightarrow>
          reduce (segmentStep chroma ctx props xs ys) (enumerate 0 points) []
      | _ \<Rightarrow> Inl Error)"

text \<open>\<open>compressed.flat()\<close>: every retained segment point, in order.\<close>

fun pointsOf :: "segment \<Rightarrow> SegmentPoint list" where
  "pointsOf (Point p) = [p]"
| "pointsOf (Run ps) = ps"

definition flat :: "segment list \<Rightarrow> SegmentPoint list" where
  "flat compressed = concat (map pointsOf compressed)"

text \<open>The number of input points retained: the distinct indices among the retained points.\<close>

definition keptCount :: "segment list \<Rightarrow> nat" where
  "keptCount compressed = length (remdups (map index (flat compressed)))"

definition keptCountOf ::
  "Chroma \<Rightarrow> Coordinates \<Rightarrow> LineSegmentsProps \<Rightarrow> datum list \<Rightarrow> nat option" where
  "keptCountOf chroma ctx props points =
     (case compressedOf chroma ctx props points of
        Inr compressed \<Rightarrow> Some (keptCount compressed)
      | Inl e \<Rightarrow> None)"

text \<open>
  A point is retained by a step of the reduction when the step returns a changed
  \<open>compressed\<close>.
\<close>

definition retained ::
  "Chroma \<Rightarrow> Coordinates \<Rightarrow> LineSegmentsProps \<Rightarrow> (datum \<Rightarrow> jsnum option) \<Rightarrow> (datum \<Rightarrow> jsnum option)
     \<Rightarrow> segment list \<Rightarrow> nat \<times> datum \<Rightarrow> bool" where
  "retained chroma ctx props xs ys compressed ip =
     (case segmentStep chroma ctx props xs ys compressed ip of
        Inr c \<Rightarrow> c \<noteq> compressed
      | Inl e \<Rightarrow> False)"


fun finiteNumber :: "jsnum option \<Rightarrow> bool" where
  "finiteNumber (Some (Fin r)) = True"
| "finiteNumber v = False"

section \<open>The rules of the specification, in its words\<close>

text \<open>
  The keep rule as the specification words it, to be compared with \<open>keep\<close>: the distance
  is at least the stroke width and the colours are dissimilar, or the continuity flag changed,
  or the distance exceeds the resolution for this point, or the angle changed by more than the
  angle resolution for this point.
\<close>

definition keepAsSpecified ::
  "Chroma \<Rightarrow> Coordinates \<Rightarrow> LineSegmentsProps \<Rightarrow> SegmentPoint \<Rightarrow> SegmentPoint \<Rightarrow> bool" where
  "keepAsSpecified chroma ctx props lastPoint newPoint =
     (strokeWidth props \<le> distance newPoint \<and>
      (dissimilarColors chroma newPoint (colorResolution props) \<or>
       continuous newPoint \<noteq> continuous lastPoint \<or>
       resolutionForThisPoint ctx props (px newPoint) (py newPoint) < distance newPoint \<or>
       (case (angle lastPoint, angle newPoint) of
          (Some la, Some a) \<Rightarrow>
            angleResolutionForThisPoint ctx (px newPoint) (py newPoint) < \<bar>la - a\<bar>
        | _ \<Rightarrow> False)))"

text \<open>
  The thresholds as the specification words them: \<open>resolution * 10\<close> and four times the
  angle threshold for a point outside the viewport, the configured ones inside.
\<close>

definition resolutionAsSpecified :: "Coordinates \<Rightarrow> LineSegmentsProps \<Rightarrow> real \<Rightarrow> real \<Rightarrow> real" where
  "resolutionAsSpecified ctx props x y =
     (if onScreen ctx x y then resolution props else resolution props * 10)"

text \<open>
  The bin index of a normalised value as the specification words it, for a bin count \<open>n\<close>:
  \<open>clamp(floor(normalizedX * binCount), 0, binCount - 1)\<close>, defined for a finite value; and
  the bins it describes: bin \<open>i\<close> holds, in their order, the records of index \<open>i\<close>.
\<close>

definition binIndex :: "nat \<Rightarrow> jsnum option \<Rightarrow> nat option" where
  "binIndex n v =
     (case v of
        Some (Fin r) \<Rightarrow> Some (nat (max 0 (min (int n - 1) \<lfloor>r * real n\<rfloor>)))
      | _ \<Rightarrow> None)"

definition binsOf :: "nat \<Rightarrow> (datum \<Rightarrow> jsnum option) \<Rightarrow> datum list \<Rightarrow> Bin1d list" where
  "binsOf n f ps =
     map (\<lambda>i. \<lparr>xBin = int i, data = filter (\<lambda>p. binIndex n (f p) = Some i) ps\<rparr>) [0..<n]"

section \<open>An invariant of the reduction of the line compression\<close>


section \<open>Example inputs\<close>

text \<open>A record with the single field \<open>x\<close>, and a record with the fields \<open>x\<close> and \<open>y\<close>.\<close>

definition rec1 :: "real \<Rightarrow> datum" where
  "rec1 v = [(''x'', JNumber (Fin v))]"

definition pt :: "real \<Rightarrow> real \<Rightarrow> datum" where
  "pt a b = [(''x'', JNumber (Fin a)), (''y'', JNumber (Fin b))]"

text \<open>
  Five records with a value and twenty-two without the field: 27 records, whose finite values
  0, 1, 1, 3, 5 have the standard deviation 2; and their statistics.
\<close>

definition sparse27 :: "datum list" where
  "sparse27 = [rec1 0, rec1 1, rec1 1, rec1 3, rec1 5,
     [], [], [], [], [], [], [], [], [], [], [],
     [], [], [], [], [], [], [], [], [], [], []]"

definition st27 :: Stats where
  "st27 = \<lparr>count = 5, naCount = 22, minS = 0, maxS = 5, rangeS = 5, sumS = 10,
     mean = Some 2, variance = Some 4, stdev = Some 2, median = Some 2\<rparr>"

text \<open>
  A second array of 27 records, whose finite values 10, 11, 11, 13, 15 have the same range and
  standard deviation; its statistics; the bins of the first array, those of the second, and
  bins that hold the records of both.
\<close>

definition shifted27 :: "datum list" where
  "shifted27 = [rec1 10, rec1 11, rec1 11, rec1 13, rec1 15,
     [], [], [], [], [], [], [], [], [], [], [],
     [], [], [], [], [], [], [], [], [], [], []]"

definition st27s :: Stats where
  "st27s = \<lparr>count = 5, naCount = 22, minS = 10, maxS = 15, rangeS = 5, sumS = 60,
     mean = Some 12, variance = Some 4, stdev = Some 2, median = Some 12\<rparr>"

definition binsA :: "Bin1d list" where
  "binsA = [\<lparr>xBin = 0, data = [rec1 0, rec1 1, rec1 1]\<rparr>,
            \<lparr>xBin = 1, data = [rec1 3, rec1 5]\<rparr>]"

definition binsB :: "Bin1d list" where
  "binsB = [\<lparr>xBin = 0, data = [rec1 10, rec1 11, rec1 11]\<rparr>,
            \<lparr>xBin = 1, data = [rec1 13, rec1 15]\<rparr>]"

definition binsAB :: "Bin1d list" where
  "binsAB = [\<lparr>xBin = 0, data = [rec1 0, rec1 1, rec1 1, rec1 10, rec1 11, rec1 11]\<rparr>,
             \<lparr>xBin = 1, data = [rec1 3, rec1 5, rec1 13, rec1 15]\<rparr>]"

text \<open>
  The bin width of the adaptive rule for two values that are 1 apart:
  \<open>3.5 * stdev / 2^(1/3)\<close> with the standard deviation \<open>sqrt(1/2)\<close>.
\<close>

definition fd2 :: real where
  "fd2 = 3.5 * sqrt (1 / 2) / 2 powr (1 / 3)"

text \<open>
  A coordinate context whose scales read the pixel position from the fields \<open>x\<close> and
  \<open>y\<close>, with no colour scale; a colour metric; the properties of a line with no continuity
  accessor and the default colour resolution.
\<close>

definition pixelX :: "datum \<Rightarrow> jsnum option" where
  "pixelX d = Some (attributeNumber d (Key ''x''))"

definition pixelY :: "datum \<Rightarrow> jsnum option" where
  "pixelY d = Some (attributeNumber d (Key ''y''))"

definition pixelCtx :: "real \<Rightarrow> real \<Rightarrow> Coordinates" where
  "pixelCtx w h =
     \<lparr>xScale = Some pixelX, yScale = Some pixelY, colorScale = None, width = w, height = h\<rparr>"




definition stepChroma :: Chroma where
  "stepChroma =
     \<lparr>deltaE = (\<lambda>a b. if a = b then 0 else 100),
      chromaDistance = (\<lambda>a b. if a = b then 0 else 100)\<rparr>"

definition lineProps :: "real \<Rightarrow> real \<Rightarrow> LineSegmentsProps" where
  "lineProps r sw = \<lparr>continuity = None, resolution = r, strokeWidth = sw, colorResolution = 5\<rparr>"

text \<open>
  The segment point of a line that starts at \<open>(0, 1)\<close>, and the segment points of a second
  point 10 pixels above it, 10 pixels to its right and 100 pixels to its right.
\<close>

definition startA :: SegmentPoint where
  "startA = firstPointOf 0 1 0 ''black''"

definition upB :: SegmentPoint where
  "upB = newPointOf startA 0 11 1 ''black'' True"

definition rightB :: SegmentPoint where
  "rightB = newPointOf startA 10 1 1 ''black'' True"

definition farB :: SegmentPoint where
  "farB = newPointOf startA 100 1 1 ''black'' True"

text \<open>A line that runs to the right and then turns back and forth.\<close>

definition zigzag :: "datum list" where
  "zigzag = [pt 0 1, pt 100 1, pt 120 1, pt 136 1, pt 104 1, pt 137 1]"

section \<open>Evaluation\<close>

lemmas stats_eval = attrScale_def attrScale_fn_def attrStats_def sortedValuesOf_def
  attributeNumber_def scaleTo_def assignOverride_def noOverride_def Let_def Stats.defs
  Scale.defs medianOf_def nth_js_def

lemmas lodash_eval = range0_def times_def toFinite_def toInteger_def MAX_ARRAY_LENGTH_def
  MAX_SAFE_INTEGER_def clamp_def baseClamp_def arrayIndex_def

lemmas line_eval = compressedOf_def pixelCtx_def pixelX_def pixelY_def lineProps_def
  segmentStep_def attributeNumber_def pt_def enumerate_eq_zip lastPointOf_def last_js_def
  nth_js_def newPointOf_def firstPointOf_def colorOf_def continuousOf_def keep_def
  dissimilarColors_def resolutionForThisPoint_def angleResolutionForThisPoint_def
  onScreen_def inRange_def atan2_def ANGLE_RESOLUTION_def Let_def flat_def startA_def
  upB_def rightB_def farB_def retained_def

section \<open>Reductions\<close>

lemma reduce_append:
  "reduce f (as @ bs) s = (case reduce f as s of Inl e \<Rightarrow> Inl e | Inr s1 \<Rightarrow> reduce f bs s1)"
  by (induction as arbitrary: s) (auto split: sum.splits)

section \<open>The first render of the one-dimensional binning\<close>

text \<open>The first render seeds \<open>start\<close> and reduces the points into it.\<close>

lemma render1d_mount:
  "render1d None points x =
     (let xStatScale = attrScale points x noOverride;
          xBins = xBins1d points x
      in case start1d xBins of
           Inl e \<Rightarrow> Inl e
         | Inr start \<Rightarrow>
             (case reduce (binStep1d xStatScale xBins) points start of
                Inl e \<Rightarrow> Inl e
              | Inr bins \<Rightarrow> Inr (bins, \<lparr>startDeps = xBins, startValue = bins\<rparr>)))"
  by (simp add: render1d_def useMemo_start_def)

lemma bins1d_mount:
  "bins1d points x =
     (let xStatScale = attrScale points x noOverride;
          xBins = xBins1d points x
      in case start1d xBins of
           Inl e \<Rightarrow> Inl e
         | Inr start \<Rightarrow> reduce (binStep1d xStatScale xBins) points start)"
  by (simp add: bins1d_def render1d_mount Let_def split: sum.splits)

section \<open>The median of attrStats\<close>

lemma medianOf_single: "medianOf [v] = Some v"
  by (simp add: medianOf_def nth_js_def)

lemma medianOf_even:
  "even (length vs) \<Longrightarrow> vs \<noteq> [] \<Longrightarrow> medianOf vs = Some (vs ! (length vs div 2))"
  by (auto simp: medianOf_def nth_js_def Let_def)

text \<open>
  For an odd count of at least three, \<open>floor(count/2)\<close> and \<open>ceil(count/2)\<close> are two
  different indices: the middle one and the one after it.
\<close>

lemma medianOf_odd:
  assumes "odd (length vs)" and "3 \<le> length vs"
  shows "medianOf vs = Some ((vs ! (length vs div 2) + vs ! (length vs div 2 + 1)) / 2)"
proof -
  obtain k where k: "length vs = 2 * k + 1"
    using assms(1) by (auto elim: oddE)
  have k1: "1 \<le> k"
    using assms(2) k by simp
  have "\<lfloor>real (2 * k + 1) / 2\<rfloor> = int k"
    by (rule floor_unique) auto
  then have f: "nat \<lfloor>real (length vs) / 2\<rfloor> = k"
    unfolding k by simp
  have "\<lceil>real (2 * k + 1) / 2\<rceil> = int (k + 1)"
    by (rule ceiling_unique) auto
  then have c: "nat \<lceil>real (length vs) / 2\<rceil> = k + 1"
    unfolding k by simp
  have d: "length vs div 2 = k"
    unfolding k by simp
  show ?thesis
    unfolding medianOf_def Let_def f c d using k k1 by (simp add: nth_js_def)
qed

text \<open>
  C6. The claim reads the odd-count branch of the median as the middle element of the sorted
  values. On the records with the values 9, 1 and 2 the sorted values are 1, 2, 9, whose middle
  element is 2; \<open>attrStats\<close> returns the average of the elements at the indices 1 and 2,
  which is 11/2.
\<close>

theorem attrStats_median_of_three:
  "sortedValuesOf [rec1 9, rec1 1, rec1 2] (Key ''x'') = [1, 2, 9] \<and>
   median (attrStats [rec1 9, rec1 1, rec1 2] (Key ''x'')) = Some (11 / 2)"
  by (simp add: rec1_def stats_eval)

section \<open>The function of a scale\<close>

text \<open>The function returned by \<open>attrScale\<close> never returns \<open>null\<close>.\<close>

lemma attrScale_call_not_null: "call (attrScale arr a ov) d \<noteq> None"
  by (simp add: attrScale_def attrScale_fn_def scaleTo_def Let_def Stats.defs Scale.defs)

text \<open>Without an override, a scale carries the statistics of its data.\<close>

lemma assignOverride_noOverride [simp]: "assignOverride s noOverride = s"
  by (cases s) (simp add: assignOverride_def noOverride_def)

lemma attrScale_noOverride [simp]:
  "stdev (attrScale arr a noOverride) = stdev (attrStats arr a)"
  "rangeS (attrScale arr a noOverride) = rangeS (attrStats arr a)"
  "maxS (attrScale arr a noOverride) = maxS (attrStats arr a)"
  "minS (attrScale arr a noOverride) = minS (attrStats arr a)"
  "call (attrScale arr a noOverride) = attrScale_fn (attrStats arr a) a"
  by (simp_all add: attrScale_def Let_def Stats.defs Scale.defs)

lemma attrStats_range_eq:
  "rangeS (attrStats arr a) = maxS (attrStats arr a) - minS (attrStats arr a)"
  by (simp add: attrStats_def Let_def)

text \<open>The finite part of the claim C4 holds: a finite value is normalised, or 0 when \<open>min = max\<close>.\<close>

lemma attrScale_call_finite:
  assumes "attributeNumber d a = Fin v"
  shows "call (attrScale arr a noOverride) d =
     (if maxS (attrStats arr a) \<noteq> minS (attrStats arr a)
      then Some (Fin ((v - minS (attrStats arr a)) / rangeS (attrStats arr a)))
      else Some (Fin 0))"
  using assms by (simp add: attrScale_fn_def scaleTo_def Let_def attrStats_range_eq)

text \<open>
  C4. The claim has the function of a scale return \<open>null\<close> for a record whose accessor
  output is not a finite number. For the record without the field \<open>x\<close>, the scale of the
  records with the values 1 and 3 returns \<open>NaN\<close>, and the scale of a data set whose only
  finite value is 5 (so that \<open>min = max\<close>) returns 0, a finite number.
\<close>

theorem attrScale_missing_field:
  "call (attrScale [rec1 1, rec1 3] (Key ''x'') noOverride) [] = Some NaN \<and>
   call (attrScale [rec1 5, []] (Key ''x'') noOverride) [] = Some (Fin 0)"
  by (simp add: rec1_def stats_eval)

section \<open>Binning a data set of zero range\<close>

lemma xBins1d_same2: "xBins1d [rec1 5, rec1 5] (Key ''x'') = NaN"
  by (simp add: xBins1d_def xBinWidth1d_def rec1_def stats_eval)

text \<open>
  C3. The claim has the one-dimensional binning return one catch-all bin for records whose
  values have zero range. For two records with the value 5 the range is 0, the bin count is
  \<open>NaN\<close>, the \<open>start\<close> array is empty and the read \<open>bins[xBin].data\<close> for the
  first record raises a \<open>TypeError\<close>.
\<close>

theorem BinStats1d_zero_range:
  "rangeS (attrStats [rec1 5, rec1 5] (Key ''x'')) = 0 \<and>
   BinStats1d [rec1 5, rec1 5] (Key ''x'') (Key ''x'') = Inl TypeError"
proof -
  have "bins1d [rec1 5, rec1 5] (Key ''x'') = Inl TypeError"
    unfolding bins1d_mount xBins1d_same2
    by (simp add: start1d_def binStep1d_def lodash_eval rec1_def stats_eval)
  then show ?thesis
    by (simp add: BinStats1d_def rec1_def stats_eval)
qed

lemma xBins2d_single: "xBins2d [pt 5 5] (Key ''x'') = NaN"
  by (simp add: xBins2d_def xBinWidth2d_def fdWidth_def js_min_def js_max_def pt_def stats_eval)

lemma yBins2d_single: "yBins2d [pt 5 5] (Key ''y'') = NaN"
  by (simp add: yBins2d_def yBinWidth2d_def fdWidth_def js_min_def js_max_def pt_def stats_eval)

text \<open>
  The two-dimensional binning of the single record \<open>{x: 5, y: 5}\<close>: both bin counts are
  \<open>NaN\<close>, no cell is seeded, the record is finite-valued (its normalised values are 0),
  and the read \<open>bins[`${xBin},${yBin}`].data\<close> raises a \<open>TypeError\<close>.
\<close>

lemma BinStats2d_single_record:
  "call (attrScale [pt 5 5] (Key ''x'') noOverride) (pt 5 5) = Some (Fin 0) \<and>
   call (attrScale [pt 5 5] (Key ''y'') noOverride) (pt 5 5) = Some (Fin 0) \<and>
   BinStats2d [pt 5 5] (Key ''x'') (Key ''y'') (Key ''x'') = Inl TypeError"
proof -
  have "bins2d [pt 5 5] (Key ''x'') (Key ''y'') = Inl TypeError"
    unfolding bins2d_def xBins2d_single yBins2d_single
    by (simp add: start2d_def binStep2d_def lodash_eval pt_def stats_eval)
  then show ?thesis
    by (simp add: BinStats2d_def pt_def stats_eval del: attrScale_noOverride)
qed

section \<open>Binning two records\<close>

text \<open>
  For two values that are 1 apart the adaptive bin width is larger than the range, so that
  the bin count \<open>floor(range / width)\<close> is 0.
\<close>

lemma fd2_gt_1: "1 < fd2"
proof -
  have "(7 / 10)\<^sup>2 < (1 / 2 :: real)"
    by (simp add: power2_eq_square)
  then have "sqrt ((7 / 10)\<^sup>2) < sqrt (1 / 2)"
    using real_sqrt_less_iff by blast
  then have s: "7 / 10 < sqrt (1 / 2)"
    by simp
  have "(2::real) powr (1 / 3) \<le> 2 powr 1"
    by (rule powr_mono) auto
  then have t: "(2::real) powr (1 / 3) \<le> 2"
    by simp
  have t0: "0 < (2::real) powr (1 / 3)"
    by simp
  have "2 powr (1 / 3) < 3.5 * sqrt (1 / 2)"
    using s t by linarith
  then show ?thesis
    unfolding fd2_def using t0 by (simp add: field_simps)
qed

lemma floor_inverse_fd2: "\<lfloor>1 / fd2\<rfloor> = 0"
  using fd2_gt_1 by (intro floor_unique) (simp_all add: field_simps)

lemma two_records_stats:
  "attrStats [pt 0 0, pt 1 1] (Key ''x'') =
     \<lparr>count = 2, naCount = 0, minS = 0, maxS = 1, rangeS = 1, sumS = 1, mean = Some (1 / 2),
      variance = Some (1 / 2), stdev = Some (sqrt (1 / 2)), median = Some 1\<rparr>"
  "attrStats [pt 0 0, pt 1 1] (Key ''y'') =
     \<lparr>count = 2, naCount = 0, minS = 0, maxS = 1, rangeS = 1, sumS = 1, mean = Some (1 / 2),
      variance = Some (1 / 2), stdev = Some (sqrt (1 / 2)), median = Some 1\<rparr>"
  "attrStats [rec1 0, rec1 1] (Key ''x'') =
     \<lparr>count = 2, naCount = 0, minS = 0, maxS = 1, rangeS = 1, sumS = 1, mean = Some (1 / 2),
      variance = Some (1 / 2), stdev = Some (sqrt (1 / 2)), median = Some 1\<rparr>"
  by (simp_all add: pt_def rec1_def attrStats_def sortedValuesOf_def attributeNumber_def
      medianOf_def nth_js_def Let_def power2_eq_square)

lemma two_records_fdWidth:
  "fdWidth (attrScale [pt 0 0, pt 1 1] (Key ''x'') noOverride) (Suc (Suc 0)) = Fin fd2"
  "fdWidth (attrScale [pt 0 0, pt 1 1] (Key ''y'') noOverride) (Suc (Suc 0)) = Fin fd2"
  by (simp_all add: fdWidth_def two_records_stats fd2_def)

lemma concat_map_Nil: "concat (map (\<lambda>i. []) xs) = []"
  by (induction xs) simp_all

lemma two_records_xBins2d: "xBins2d [pt 0 0, pt 1 1] (Key ''x'') = Fin 20"
  using fd2_gt_1
  by (simp add: xBins2d_def xBinWidth2d_def two_records_fdWidth js_min_def js_max_def
      two_records_stats Let_def)

lemma two_records_yBins2d: "yBins2d [pt 0 0, pt 1 1] (Key ''y'') = Fin 0"
  using fd2_gt_1 floor_inverse_fd2
  by (simp add: yBins2d_def yBinWidth2d_def two_records_fdWidth js_max_def two_records_stats
      Let_def)

lemma start2d_20_0: "start2d (Fin 20) (Fin 0) = []"
  by (simp add: start2d_def lodash_eval concat_map_Nil)

text \<open>
  C7. The claim has the two-dimensional binning produce the grid of bins for every input and
  add every finite-valued record to one of its cells. For the two records \<open>{x: 0, y: 0}\<close>
  and \<open>{x: 1, y: 1}\<close> the bin counts are 20 and 0: no cell is seeded, and for the first
  record, whose normalised values are 0, the read \<open>bins[`${xBin},${yBin}`].data\<close> raises a
  \<open>TypeError\<close>.
\<close>

theorem BinStats2d_two_records:
  "xBins2d [pt 0 0, pt 1 1] (Key ''x'') = Fin 20 \<and>
   yBins2d [pt 0 0, pt 1 1] (Key ''y'') = Fin 0 \<and>
   BinStats2d [pt 0 0, pt 1 1] (Key ''x'') (Key ''y'') (Key ''x'') = Inl TypeError"
proof -
  have "bins2d [pt 0 0, pt 1 1] (Key ''x'') (Key ''y'') = Inl TypeError"
    unfolding bins2d_def Let_def two_records_xBins2d two_records_yBins2d start2d_20_0
    by (simp add: binStep2d_def lodash_eval pt_def attrScale_fn_def attributeNumber_def
        scaleTo_def two_records_stats[unfolded pt_def])
  then show ?thesis
    by (simp add: BinStats2d_def two_records_xBins2d two_records_yBins2d)
qed

text \<open>The one-dimensional binning of two such records fails in the same way.\<close>

lemma two_records_xBins1d: "xBins1d [rec1 0, rec1 1] (Key ''x'') = Fin 0"
proof -
  have "xBinWidth1d (attrScale [rec1 0, rec1 1] (Key ''x'') noOverride) (Suc (Suc 0)) = Fin fd2"
    by (simp add: xBinWidth1d_def two_records_stats fd2_def)
  then show ?thesis
    using fd2_gt_1 floor_inverse_fd2 by (simp add: xBins1d_def two_records_stats Let_def)
qed

lemma bins1d_two_records: "bins1d [rec1 0, rec1 1] (Key ''x'') = Inl TypeError"
  unfolding bins1d_mount Let_def two_records_xBins1d
  by (simp add: start1d_def binStep1d_def lodash_eval nth_js_def rec1_def attrScale_fn_def
      attributeNumber_def scaleTo_def two_records_stats[unfolded rec1_def])

section \<open>One-dimensional binning is a partition\<close>

subsection \<open>The statistics behind the bin count\<close>

lemma foldl_sum: "foldl (\<lambda>s v. s + f v) a vs = a + sum_list (map f vs)"
  by (induction vs arbitrary: a) (simp_all add: add.assoc)

lemma ends_le_sum_squares:
  fixes vs :: "real list"
  assumes "2 \<le> length vs"
  shows "(hd vs - m)\<^sup>2 + (last vs - m)\<^sup>2 \<le> sum_list (map (\<lambda>v. (v - m)\<^sup>2) vs)"
proof -
  from assms obtain a ws where vs: "vs = a # ws"
    by (cases vs) auto
  with assms have ws: "ws \<noteq> []"
    by auto
  then obtain us b where w: "ws = us @ [b]"
    by (metis append_butlast_last_id)
  have "0 \<le> sum_list (map (\<lambda>v. (v - m)\<^sup>2) us)"
    by (rule sum_list_nonneg) auto
  then show ?thesis
    unfolding vs w by simp
qed

lemma range_sq_le:
  fixes a b m :: real
  shows "(b - a)\<^sup>2 \<le> 2 * ((a - m)\<^sup>2 + (b - m)\<^sup>2)"
proof -
  have "2 * ((a - m)\<^sup>2 + (b - m)\<^sup>2) - (b - a)\<^sup>2 = (a + b - 2 * m)\<^sup>2"
    by (simp add: power2_eq_square algebra_simps)
  moreover have "0 \<le> (a + b - 2 * m)\<^sup>2"
    by simp
  ultimately show ?thesis
    by linarith
qed

lemma attrStats_range_small:
  "length (sortedValuesOf arr a) < 2 \<Longrightarrow> rangeS (attrStats arr a) = 0"
  by (cases "sortedValuesOf arr a"; cases "tl (sortedValuesOf arr a)")
     (auto simp: attrStats_def Let_def)

text \<open>When the standard deviation is \<open>null\<close>, the range is zero.\<close>

lemma attrStats_stdev_None_range:
  assumes "stdev (attrStats arr a) = None"
  shows "rangeS (attrStats arr a) = 0"
proof (cases "length (sortedValuesOf arr a) < 2")
  case True
  then show ?thesis
    by (rule attrStats_range_small)
next
  case False
  let ?vs = "sortedValuesOf arr a"
  let ?m = "foldl (\<lambda>s v. s + v) 0 ?vs / real (length ?vs)"
  let ?S = "sum_list (map (\<lambda>v. (v - ?m)\<^sup>2) ?vs)"
  from False have c: "2 \<le> length ?vs"
    by simp
  then have ne: "?vs \<noteq> []"
    by auto
  from assms c have "?S / (real (length ?vs) - 1) = 0"
    by (auto simp: attrStats_def Let_def foldl_sum split: if_splits)
  with c have S0: "?S = 0"
    by auto
  have "(last ?vs - hd ?vs)\<^sup>2 \<le> 2 * ((hd ?vs - ?m)\<^sup>2 + (last ?vs - ?m)\<^sup>2)"
    by (rule range_sq_le)
  also have "\<dots> \<le> 2 * ?S"
    using ends_le_sum_squares[OF c, of ?m] by simp
  finally have "(last ?vs - hd ?vs)\<^sup>2 \<le> 0"
    using S0 by simp
  then have "last ?vs = hd ?vs"
    by simp
  with ne show ?thesis
    by (cases ?vs) (auto simp: attrStats_def Let_def)
qed

text \<open>
  When the standard deviation is a number, it is positive, at least two values are finite and
  the squared range is at most \<open>2 (count - 1)\<close> times the variance.
\<close>

lemma attrStats_stdev_Some:
  assumes "stdev (attrStats arr a) = Some sd"
  shows "0 < sd \<and> 2 \<le> length (sortedValuesOf arr a) \<and>
         (rangeS (attrStats arr a))\<^sup>2 \<le> 2 * (real (length (sortedValuesOf arr a)) - 1) * sd\<^sup>2"
proof -
  let ?vs = "sortedValuesOf arr a"
  let ?m = "foldl (\<lambda>s v. s + v) 0 ?vs / real (length ?vs)"
  let ?S = "sum_list (map (\<lambda>v. (v - ?m)\<^sup>2) ?vs)"
  let ?V = "?S / (real (length ?vs) - 1)"
  from assms have c: "2 \<le> length ?vs" and V: "?V \<noteq> 0" and sd: "sd = sqrt ?V"
    by (auto simp: attrStats_def Let_def foldl_sum split: if_splits)
  then have ne: "?vs \<noteq> []"
    by auto
  have S: "0 \<le> ?S"
    by (rule sum_list_nonneg) auto
  with c have "0 \<le> ?V"
    by simp
  with V have Vpos: "0 < ?V"
    by (rule order.not_eq_order_implies_strict[OF not_sym])
  then have sdpos: "0 < sd"
    using sd by simp
  have sd2: "sd\<^sup>2 = ?V"
    using sd Vpos by simp
  have r: "rangeS (attrStats arr a) = last ?vs - hd ?vs"
    using ne by (cases ?vs) (auto simp: attrStats_def Let_def)
  have "(last ?vs - hd ?vs)\<^sup>2 \<le> 2 * ((hd ?vs - ?m)\<^sup>2 + (last ?vs - ?m)\<^sup>2)"
    by (rule range_sq_le)
  also have "\<dots> \<le> 2 * ?S"
    using ends_le_sum_squares[OF c, of ?m] by simp
  also have "\<dots> = 2 * (real (length ?vs) - 1) * sd\<^sup>2"
  proof -
    have d: "real (length ?vs) - 1 \<noteq> 0"
      using c by simp
    have "2 * S = 2 * d * (S / d)" if "d \<noteq> 0" for S d :: real
      using that by simp
    from this[OF d] show ?thesis
      unfolding sd2 .
  qed
  finally show ?thesis
    using sdpos c r by simp
qed

lemma length_finiteValues: "length (finiteValues vs) \<le> length vs"
  by (induction vs rule: finiteValues.induct) auto

lemma length_sortedValuesOf: "length (sortedValuesOf arr a) \<le> length arr"
  using length_finiteValues[of "map (\<lambda>d. attributeNumber d a) arr"]
  by (simp add: sortedValuesOf_def)

lemma attrStats_range_nonneg: "0 \<le> rangeS (attrStats arr a)"
proof (cases "sortedValuesOf arr a")
  case Nil
  then show ?thesis
    by (simp add: attrStats_def Let_def)
next
  case (Cons v vs)
  have "sorted (sortedValuesOf arr a)"
    by (simp add: sortedValuesOf_def)
  then have "v \<le> last (v # vs)"
    unfolding Cons
    by (metis Cons last_in_set list.distinct(1) list.set_intros(1) order_refl set_ConsD
        sorted_simps(2))
  with Cons show ?thesis
    by (simp add: attrStats_def Let_def)
qed

lemma cube_root_le_sqrt:
  assumes "1 \<le> (L::real)"
  shows "L powr (1 / 3) \<le> sqrt L"
proof -
  have "L powr (1 / 3) \<le> L powr (1 / 2)"
    by (rule powr_mono) (use assms in auto)
  also have "\<dots> = sqrt L"
    using assms by (simp add: powr_half_sqrt)
  finally show ?thesis .
qed

lemma two_le_square_of_3_5:
  fixes s l :: real
  shows "(2 * l * s\<^sup>2) * l \<le> (3.5 * s * l)\<^sup>2"
proof -
  have a: "(3.5 * s * l)\<^sup>2 = (49 / 4) * (s * l)\<^sup>2"
    by (simp add: power_mult_distrib power2_eq_square)
  have b: "(2 * l * s\<^sup>2) * l = 2 * (s * l)\<^sup>2"
    by (simp add: power2_eq_square)
  have "0 \<le> (s * l)\<^sup>2"
    by simp
  then show ?thesis
    unfolding a b by linarith
qed

text \<open>
  A bin count of at least one is a positive integer, no larger than the number of records,
  and the data have a range.
\<close>

lemma xBins1d_at_least_one:
  assumes "js_le (Fin 1) (xBins1d points x)"
  shows "\<exists>n. 0 < n \<and> n \<le> length points \<and> xBins1d points x = Fin (real n) \<and>
             maxS (attrStats points x) \<noteq> minS (attrStats points x)"
proof (cases "stdev (attrStats points x)")
  case None
  then have "rangeS (attrStats points x) = 0"
    by (rule attrStats_stdev_None_range)
  with None assms show ?thesis
    by (simp add: xBins1d_def xBinWidth1d_def)
next
  case (Some sd)
  let ?r = "rangeS (attrStats points x)"
  let ?c = "length (sortedValuesOf points x)"
  let ?L = "real (length points)"
  let ?t = "?L powr (1 / 3)"
  from attrStats_stdev_Some[OF Some] have sd: "0 < sd" and c: "2 \<le> ?c"
    and r2: "?r\<^sup>2 \<le> 2 * (real ?c - 1) * sd\<^sup>2"
    by auto
  have cL: "?c \<le> length points"
    by (rule length_sortedValuesOf)
  with c have L: "2 \<le> ?L"
    by simp
  then have "0 < ?L"
    by linarith
  then have t: "0 < ?t"
    by simp
  let ?w = "3.5 * sd / ?t"
  have w: "0 < ?w"
    using sd t by simp
  have xb: "xBins1d points x = Fin (real_of_int \<lfloor>?r / ?w\<rfloor>)"
    using Some t w sd by (simp add: xBins1d_def xBinWidth1d_def)
  with assms have k1: "1 \<le> \<lfloor>?r / ?w\<rfloor>"
    by simp
  have ts: "?t \<le> sqrt ?L"
    by (rule cube_root_le_sqrt) (use L in simp)
  then have "?t\<^sup>2 \<le> (sqrt ?L)\<^sup>2"
    using t by (intro power_mono) simp_all
  then have t2: "?t\<^sup>2 \<le> ?L"
    by simp
  have "(?r * ?t)\<^sup>2 = ?r\<^sup>2 * ?t\<^sup>2"
    by (simp add: power_mult_distrib)
  also have "\<dots> \<le> (2 * (real ?c - 1) * sd\<^sup>2) * ?L"
    by (rule mult_mono[OF r2 t2]) (use c in simp_all)
  also have "\<dots> \<le> (2 * ?L * sd\<^sup>2) * ?L"
    using cL by (intro mult_right_mono) simp_all
  also have "\<dots> \<le> (3.5 * sd * ?L)\<^sup>2"
    by (rule two_le_square_of_3_5)
  finally have "(?r * ?t)\<^sup>2 \<le> (3.5 * sd * ?L)\<^sup>2" .
  then have "?r * ?t \<le> 3.5 * sd * ?L"
    by (rule power2_le_imp_le) (use sd in simp)
  then have "?r / ?w \<le> ?L"
    using sd t by (simp add: field_simps)
  then have kL: "\<lfloor>?r / ?w\<rfloor> \<le> int (length points)"
    by (simp add: floor_le_iff)
  define n where "n = nat \<lfloor>?r / ?w\<rfloor>"
  have n: "0 < n" "n \<le> length points" "real n = real_of_int \<lfloor>?r / ?w\<rfloor>"
    using k1 kL by (simp_all add: n_def)
  have "?r \<noteq> 0"
  proof
    assume "?r = 0"
    with k1 show False
      by simp
  qed
  then have "maxS (attrStats points x) \<noteq> minS (attrStats points x)"
    by (simp add: attrStats_range_eq)
  with n xb show ?thesis
    by auto
qed

subsection \<open>The reduction over the points\<close>

lemma binIndex_less: "0 < n \<Longrightarrow> binIndex n v = Some i \<Longrightarrow> i < n"
  by (auto simp: binIndex_def split: option.splits jsnum.splits)

lemma binIndex_finite: "(binIndex n v \<noteq> None) = finiteNumber v"
  by (cases v rule: finiteNumber.cases) (simp_all add: binIndex_def)

lemma start1d_Fin:
  assumes "real n \<le> MAX_ARRAY_LENGTH"
  shows "start1d (Fin (real n)) = Inr (binsOf n f [])"
proof -
  have "range0 (Fin (real n)) = Inr (map int [0..<n])"
    using assms by (cases "n = 0") (auto simp: range0_def toFinite_def Let_def)
  then show ?thesis
    by (simp add: start1d_def binsOf_def o_def)
qed

lemma clamp_index:
  assumes "0 < n"
  shows "clamp (Fin (real_of_int \<lfloor>r * real n\<rfloor>)) (Fin 0) (Fin (real n - 1))
         = Fin (real_of_int (max 0 (min (int n - 1) \<lfloor>r * real n\<rfloor>)))"
proof -
  have "real n - 1 = real_of_int (int n - 1)"
    by simp
  then show ?thesis
    using assms by (simp add: clamp_def baseClamp_def Let_def del: of_int_diff)
qed

lemma arrayIndex_of_int: "0 \<le> k \<Longrightarrow> arrayIndex (Fin (real_of_int k)) = Some (nat k)"
  by (simp add: arrayIndex_def)

lemma binsOf_snoc:
  assumes "0 < n"
  shows "binsOf n f (ps @ [p]) =
    (case binIndex n (f p) of
       None \<Rightarrow> binsOf n f ps
     | Some j \<Rightarrow>
         (binsOf n f ps)[j := (binsOf n f ps ! j)\<lparr>data := data (binsOf n f ps ! j) @ [p]\<rparr>])"
proof (cases "binIndex n (f p)")
  case None
  then show ?thesis
    by (simp add: binsOf_def)
next
  case (Some j)
  then have j: "j < n"
    using assms binIndex_less by blast
  show ?thesis
    unfolding Some option.case
    by (rule nth_equalityI) (auto simp: binsOf_def Some j nth_list_update)
qed

text \<open>One step of the reduction adds the record to the bin of its index.\<close>

lemma binStep1d_binsOf:
  assumes "0 < n"
  shows "binStep1d s (Fin (real n)) (binsOf n (call s) ps) p = Inr (binsOf n (call s) (ps @ [p]))"
proof (cases "call s p")
  case None
  then show ?thesis
    by (simp add: binStep1d_def binsOf_snoc[OF assms] binIndex_def)
next
  case (Some v)
  show ?thesis
  proof (cases v)
    case (Fin r)
    let ?j = "nat (max 0 (min (int n - 1) \<lfloor>r * real n\<rfloor>))"
    have b: "binIndex n (call s p) = Some ?j"
      by (simp add: binIndex_def Some Fin)
    have j: "?j < n"
      using binIndex_less[OF assms b] .
    have l: "length (binsOf n (call s) ps) = n"
      by (simp add: binsOf_def)
    show ?thesis
      unfolding binsOf_snoc[OF assms] b option.case
      using j l
      by (simp add: binStep1d_def Some Fin clamp_index[OF assms] arrayIndex_of_int nth_js_def
          Let_def)
  qed (simp_all add: binStep1d_def Some binsOf_snoc[OF assms] binIndex_def)
qed

text \<open>
  The reduction from bins that hold the records \<open>ps\<close> adds the records \<open>qs\<close> to them.
  From the fresh \<open>start\<close> (\<open>ps\<close> empty) the bins hold the points; from a \<open>start\<close>
  that an earlier reduction has filled, as when the memoised array is used again, the
  earlier members stay in the bins.
\<close>

lemma reduce_binsOf:
  assumes "0 < n"
  shows "reduce (binStep1d s (Fin (real n))) qs (binsOf n (call s) ps) =
         Inr (binsOf n (call s) (ps @ qs))"
proof (induction qs arbitrary: ps)
  case Nil
  then show ?case
    by simp
next
  case (Cons q qs)
  show ?case
    using Cons.IH[of "ps @ [q]"] by (simp add: binStep1d_binsOf[OF assms])
qed

text \<open>The member counts of the bins add up to the number of finite-valued records.\<close>

lemma sum_members:
  assumes "0 < n"
  shows "sum_list (map (\<lambda>b. length (data b)) (binsOf n f ps)) =
         length (filter (\<lambda>p. finiteNumber (f p)) ps)"
proof (induction ps rule: rev_induct)
  case Nil
  then show ?case
    by (simp add: binsOf_def)
next
  case (snoc p ps)
  show ?case
  proof (cases "binIndex n (f p)")
    case None
    then have "\<not> finiteNumber (f p)"
      using binIndex_finite[of n "f p"] by simp
    with None snoc show ?thesis
      by (simp add: binsOf_snoc[OF assms])
  next
    case (Some j)
    then have j: "j < n"
      using assms binIndex_less by blast
    from Some have fin: "finiteNumber (f p)"
      using binIndex_finite[of n "f p"] by simp
    let ?bs = "binsOf n f ps"
    let ?ls = "map (\<lambda>b. length (data b)) ?bs"
    have l: "length ?bs = n"
      by (simp add: binsOf_def)
    have jl: "j < length ?ls"
      using j l by simp
    have "sum_list (map (\<lambda>b. length (data b))
             (?bs[j := (?bs ! j)\<lparr>data := data (?bs ! j) @ [p]\<rparr>]))
        = sum_list (?ls[j := Suc (?ls ! j)])"
      using j l by (simp add: map_update)
    also have "\<dots> = sum_list ?ls + Suc (?ls ! j) - ?ls ! j"
      by (rule sum_list_update[OF jl])
    finally have "sum_list (map (\<lambda>b. length (data b))
             (?bs[j := (?bs ! j)\<lparr>data := data (?bs ! j) @ [p]\<rparr>]))
        = sum_list ?ls + 1"
      by simp
    with snoc fin Some show ?thesis
      by (simp add: binsOf_snoc[OF assms])
  qed
qed

lemma call_max_is_one:
  assumes "maxS (attrStats points x) \<noteq> minS (attrStats points x)"
    and "attributeNumber p x = Fin (maxS (attrStats points x))"
  shows "attrScale_fn (attrStats points x) x p = Some (Fin 1)"
  using assms
  by (simp add: attrScale_fn_def scaleTo_def Let_def attrStats_range_eq)

lemma binIndex_one: "0 < n \<Longrightarrow> binIndex n (Some (Fin 1)) = Some (n - 1)"
  by (auto simp: binIndex_def min_def max_def)

text \<open>
  The first render. When the bin count of the model is at least 1 (for an array of records,
  whose length is at most \<open>2^32 - 1\<close>), it is a positive integer \<open>n\<close> and the first
  render returns \<open>n\<close> bins, numbered from 0; bin \<open>i\<close> holds exactly the records whose
  normalised value is finite and whose index \<open>clamp(floor(normalizedX * n), 0, n - 1)\<close> is
  \<open>i\<close>; the member counts add up to the number of finite-valued records; and a record at
  the maximum is in the last bin.
\<close>

lemma bins1d_partition:
  assumes "js_le (Fin 1) (xBins1d points x)"
    and "real (length points) \<le> MAX_ARRAY_LENGTH"
  shows "\<exists>n bins. 0 < n \<and> xBins1d points x = Fin (real n) \<and>
           bins1d points x = Inr bins \<and> length bins = n \<and>
           (\<forall>i<n. xBin (bins ! i) = int i \<and>
                  data (bins ! i) =
                    filter (\<lambda>p. binIndex n (call (attrScale points x noOverride) p) = Some i)
                      points) \<and>
           (\<forall>p. finiteNumber (call (attrScale points x noOverride) p) \<longrightarrow>
                  (\<exists>i<n. binIndex n (call (attrScale points x noOverride) p) = Some i)) \<and>
           sum_list (map (\<lambda>b. length (data b)) bins) =
             length (filter (\<lambda>p. finiteNumber (call (attrScale points x noOverride) p)) points) \<and>
           (\<forall>p\<in>set points.
              attributeNumber p x = Fin (maxS (attrScale points x noOverride)) \<longrightarrow>
              p \<in> set (data (bins ! (n - 1))))"
proof -
  let ?s = "attrScale points x noOverride"
  from xBins1d_at_least_one[OF assms(1)] obtain n where n: "0 < n" "n \<le> length points"
    and xb: "xBins1d points x = Fin (real n)"
    and mm: "maxS (attrStats points x) \<noteq> minS (attrStats points x)"
    by blast
  let ?bins = "binsOf n (call ?s) points"
  have "real n \<le> MAX_ARRAY_LENGTH"
    using n(2) assms(2) by simp
  then have st: "start1d (Fin (real n)) = Inr (binsOf n (call ?s) [])"
    by (rule start1d_Fin)
  have b: "bins1d points x = Inr ?bins"
    unfolding bins1d_mount Let_def xb st
    using reduce_binsOf[OF n(1), of ?s points "[]"] by simp
  have l: "length ?bins = n"
    by (simp add: binsOf_def)
  have d: "\<forall>i<n. xBin (?bins ! i) = int i \<and>
      data (?bins ! i) = filter (\<lambda>p. binIndex n (call ?s p) = Some i) points"
    by (simp add: binsOf_def)
  have f: "\<forall>p. finiteNumber (call ?s p) \<longrightarrow> (\<exists>i<n. binIndex n (call ?s p) = Some i)"
  proof (intro allI impI)
    fix p
    assume "finiteNumber (call ?s p)"
    then obtain i where i: "binIndex n (call ?s p) = Some i"
      using binIndex_finite[of n "call ?s p"] by auto
    with binIndex_less[OF n(1) i] show "\<exists>i<n. binIndex n (call ?s p) = Some i"
      by blast
  qed
  have s: "sum_list (map (\<lambda>b. length (data b)) ?bins) =
      length (filter (\<lambda>p. finiteNumber (call ?s p)) points)"
    by (rule sum_members[OF n(1)])
  have m: "\<forall>p\<in>set points. attributeNumber p x = Fin (maxS ?s) \<longrightarrow>
      p \<in> set (data (?bins ! (n - 1)))"
  proof (intro ballI impI)
    fix p
    assume p: "p \<in> set points" "attributeNumber p x = Fin (maxS ?s)"
    then have "call ?s p = Some (Fin 1)"
      using call_max_is_one[OF mm] by simp
    then have "binIndex n (call ?s p) = Some (n - 1)"
      using binIndex_one[OF n(1)] by simp
    with p(1) n(1) show "p \<in> set (data (?bins ! (n - 1)))"
      by (simp add: binsOf_def)
  qed
  from n(1) xb b l d f s m show ?thesis
    by blast
qed

subsection \<open>A data set with two bins\<close>

lemma sparse27_stats: "attrStats sparse27 (Key ''x'') = st27"
  by (simp add: sparse27_def st27_def rec1_def attrStats_def sortedValuesOf_def
      attributeNumber_def medianOf_def nth_js_def Let_def power2_eq_square)

lemma sparse27_xBins: "xBins1d sparse27 (Key ''x'') = Fin 2"
proof -
  have "length sparse27 = 27"
    by (simp add: sparse27_def)
  moreover have "(27::real) powr (1 / 3) = 3"
    by simp
  ultimately show ?thesis
    by (simp add: xBins1d_def xBinWidth1d_def sparse27_stats st27_def)
qed

lemma sparse27_index:
  "binIndex 2 (attrScale_fn st27 (Key ''x'') (rec1 0)) = Some 0"
  "binIndex 2 (attrScale_fn st27 (Key ''x'') (rec1 1)) = Some 0"
  "binIndex 2 (attrScale_fn st27 (Key ''x'') (rec1 3)) = Some 1"
  "binIndex 2 (attrScale_fn st27 (Key ''x'') (rec1 5)) = Some 1"
  "binIndex 2 (attrScale_fn st27 (Key ''x'') []) = None"
  by (simp_all add: st27_def rec1_def binIndex_def attrScale_fn_def attributeNumber_def
      scaleTo_def)

lemma sparse27_bin0:
  "filter (\<lambda>p. binIndex 2 (attrScale_fn st27 (Key ''x'') p) = Some 0) sparse27 =
   [rec1 0, rec1 1, rec1 1]"
  unfolding sparse27_def by (simp add: sparse27_index)

lemma sparse27_bin1:
  "filter (\<lambda>p. binIndex 2 (attrScale_fn st27 (Key ''x'') p) = Some (Suc 0)) sparse27 =
   [rec1 3, rec1 5]"
  unfolding sparse27_def by (simp add: sparse27_index)

section \<open>The second render of the one-dimensional binning\<close>

text \<open>
  A step of the reduction adds the record to the bin of its index, whatever the bins hold.
\<close>

lemma binStep1d_Fin:
  assumes "0 < n" and "length bins = n"
  shows "binStep1d s (Fin (real n)) bins p =
     (case binIndex n (call s p) of
        None \<Rightarrow> Inr bins
      | Some j \<Rightarrow> Inr (bins[j := (bins ! j)\<lparr>data := data (bins ! j) @ [p]\<rparr>]))"
proof (cases "call s p")
  case None
  then show ?thesis
    by (simp add: binStep1d_def binIndex_def)
next
  case (Some v)
  show ?thesis
  proof (cases v)
    case (Fin r)
    let ?j = "nat (max 0 (min (int n - 1) \<lfloor>r * real n\<rfloor>))"
    have b: "binIndex n (call s p) = Some ?j"
      by (simp add: binIndex_def Some Fin)
    have j: "?j < n"
      using binIndex_less[OF assms(1) b] .
    show ?thesis
      unfolding b option.case
      using j assms(2)
      by (simp add: binStep1d_def Some Fin clamp_index[OF assms(1)] arrayIndex_of_int nth_js_def
          Let_def)
  qed (simp_all add: binStep1d_def Some binIndex_def)
qed

text \<open>
  The reduction from any array of \<open>n\<close> bins appends to every bin the records of its index.
\<close>

lemma reduce_binStep1d_from:
  assumes "0 < n" and "length start = n"
  shows "reduce (binStep1d s (Fin (real n))) qs start =
     Inr (map2 (\<lambda>b c. b\<lparr>data := data b @ data c\<rparr>) start (binsOf n (call s) qs))"
proof (induction qs rule: rev_induct)
  case Nil
  have "map2 (\<lambda>b c. b\<lparr>data := data b @ data c\<rparr>) start (binsOf n (call s) []) = start"
    using assms(2) by (intro nth_equalityI) (simp_all add: binsOf_def)
  then show ?case
    by simp
next
  case (snoc q qs)
  let ?C = "binsOf n (call s) qs"
  let ?B = "map2 (\<lambda>b c. b\<lparr>data := data b @ data c\<rparr>) start ?C"
  have lC: "length ?C = n"
    by (simp add: binsOf_def)
  have lB: "length ?B = n"
    using assms(2) lC by simp
  show ?case
  proof (cases "binIndex n (call s q)")
    case None
    then show ?thesis
      using snoc by (simp add: reduce_append binStep1d_Fin[OF assms(1) lB]
          binsOf_snoc[OF assms(1)])
  next
    case (Some j)
    then have j: "j < n"
      using assms(1) binIndex_less by blast
    have "?B[j := (?B ! j)\<lparr>data := data (?B ! j) @ [q]\<rparr>] =
        map2 (\<lambda>b c. b\<lparr>data := data b @ data c\<rparr>) start
          (?C[j := (?C ! j)\<lparr>data := data (?C ! j) @ [q]\<rparr>])"
      using j assms(2) lC by (intro nth_equalityI) (auto simp: nth_list_update)
    then show ?thesis
      using snoc Some by (simp add: reduce_append binStep1d_Fin[OF assms(1) lB]
          binsOf_snoc[OF assms(1)])
  qed
qed

text \<open>
  A render whose bin count is that of the render before uses the array of the hook again:
  every bin keeps the members it holds and receives the records of the new array.
\<close>

lemma render1d_reuses_start:
  assumes "xBins1d points x = Fin (real n)" and "0 < n"
    and "startDeps h = Fin (real n)" and "length (startValue h) = n"
  shows "render1d (Some h) points x =
     (let bins = map2 (\<lambda>b c. b\<lparr>data := data b @ data c\<rparr>) (startValue h)
                   (binsOf n (call (attrScale points x noOverride)) points)
      in Inr (bins, \<lparr>startDeps = Fin (real n), startValue = bins\<rparr>))"
  unfolding render1d_def useMemo_start_def Let_def assms(1)
  using assms(3) by (simp add: reduce_binStep1d_from[OF assms(2,4)])

text \<open>A first render with two bins.\<close>

lemma start1d_2: "start1d (Fin 2) = Inr (binsOf 2 f [])"
  using start1d_Fin[of 2 f] by (simp add: MAX_ARRAY_LENGTH_def)

lemma render1d_mount_two_bins:
  assumes "xBins1d points x = Fin 2"
  shows "render1d None points x =
     (let bins = binsOf 2 (call (attrScale points x noOverride)) points
      in Inr (bins, \<lparr>startDeps = Fin 2, startValue = bins\<rparr>))"
proof -
  let ?s = "attrScale points x noOverride"
  have "reduce (binStep1d ?s (Fin 2)) points (binsOf 2 (call ?s) []) =
      Inr (binsOf 2 (call ?s) points)"
    using reduce_binsOf[of 2 ?s points "[]"] by simp
  then show ?thesis
    unfolding render1d_mount Let_def assms start1d_2[of "call ?s"] by simp
qed

text \<open>The two arrays of 27 records have the bin count 2 and these bins.\<close>

lemma shifted27_stats: "attrStats shifted27 (Key ''x'') = st27s"
  by (simp add: shifted27_def st27s_def rec1_def attrStats_def sortedValuesOf_def
      attributeNumber_def medianOf_def nth_js_def Let_def power2_eq_square)

lemma shifted27_xBins: "xBins1d shifted27 (Key ''x'') = Fin 2"
proof -
  have "length shifted27 = 27"
    by (simp add: shifted27_def)
  moreover have "(27::real) powr (1 / 3) = 3"
    by simp
  ultimately show ?thesis
    by (simp add: xBins1d_def xBinWidth1d_def shifted27_stats st27s_def)
qed

lemma shifted27_index:
  "binIndex 2 (attrScale_fn st27s (Key ''x'') (rec1 10)) = Some 0"
  "binIndex 2 (attrScale_fn st27s (Key ''x'') (rec1 11)) = Some 0"
  "binIndex 2 (attrScale_fn st27s (Key ''x'') (rec1 13)) = Some 1"
  "binIndex 2 (attrScale_fn st27s (Key ''x'') (rec1 15)) = Some 1"
  "binIndex 2 (attrScale_fn st27s (Key ''x'') []) = None"
  by (simp_all add: st27s_def rec1_def binIndex_def attrScale_fn_def attributeNumber_def
      scaleTo_def)

lemma upt_2: "[0..<2] = [0, Suc 0]"
  by (simp add: upt_rec numeral_2_eq_2)

lemma shifted27_bins: "binsOf 2 (attrScale_fn st27s (Key ''x'')) shifted27 = binsB"
proof -
  have "filter (\<lambda>p. binIndex 2 (attrScale_fn st27s (Key ''x'') p) = Some 0) shifted27 =
      [rec1 10, rec1 11, rec1 11]"
    unfolding shifted27_def by (simp add: shifted27_index)
  moreover have
    "filter (\<lambda>p. binIndex 2 (attrScale_fn st27s (Key ''x'') p) = Some (Suc 0)) shifted27 =
      [rec1 13, rec1 15]"
    unfolding shifted27_def by (simp add: shifted27_index)
  ultimately show ?thesis
    unfolding binsOf_def upt_2 binsB_def by simp
qed

lemma sparse27_bins: "binsOf 2 (attrScale_fn st27 (Key ''x'')) sparse27 = binsA"
  unfolding binsOf_def upt_2 binsA_def by (simp add: sparse27_bin0 sparse27_bin1)

lemma shifted27_finite:
  "length (filter (\<lambda>p. finiteNumber (attrScale_fn st27s (Key ''x'') p)) shifted27) = 5"
proof -
  have "finiteNumber (attrScale_fn st27s (Key ''x'') (rec1 v))" for v
    by (simp add: st27s_def rec1_def attrScale_fn_def attributeNumber_def scaleTo_def)
  moreover have "\<not> finiteNumber (attrScale_fn st27s (Key ''x'') [])"
    by (simp add: st27s_def attrScale_fn_def attributeNumber_def scaleTo_def)
  ultimately show ?thesis
    unfolding shifted27_def by simp
qed

text \<open>
  C5. The claim has the bins partition the finite-valued records whenever the bin count is at
  least 1. A component renders with the 27 records whose finite values are 0, 1, 1, 3, 5: the
  bin count is 2 and the bins hold 0, 1, 1 and 3, 5. It renders again with an array of 27
  other records, whose finite values are 10, 11, 11, 13, 15: the bin count is 2 again, the
  memoised \<open>start\<close> is used again, and the bins hold 0, 1, 1, 10, 11, 11 and
  3, 5, 13, 15: ten members for five finite-valued records, five of them records the array
  does not hold. A component that renders the second array first has the bins 10, 11, 11 and
  13, 15.
\<close>

theorem BinStats1d_second_render:
  "render1d None sparse27 (Key ''x'') = Inr (binsA, \<lparr>startDeps = Fin 2, startValue = binsA\<rparr>) \<and>
   render1d None shifted27 (Key ''x'') = Inr (binsB, \<lparr>startDeps = Fin 2, startValue = binsB\<rparr>) \<and>
   render1d (Some \<lparr>startDeps = Fin 2, startValue = binsA\<rparr>) shifted27 (Key ''x'') =
     Inr (binsAB, \<lparr>startDeps = Fin 2, startValue = binsAB\<rparr>) \<and>
   sum_list (map (\<lambda>b. length (data b)) binsAB) = 10 \<and>
   length (filter (\<lambda>p. finiteNumber (call (attrScale shifted27 (Key ''x'') noOverride) p))
             shifted27) = 5"
proof -
  have 1: "render1d None sparse27 (Key ''x'') =
      Inr (binsA, \<lparr>startDeps = Fin 2, startValue = binsA\<rparr>)"
    unfolding render1d_mount_two_bins[OF sparse27_xBins]
    by (simp add: sparse27_stats sparse27_bins)
  have 2: "render1d None shifted27 (Key ''x'') =
      Inr (binsB, \<lparr>startDeps = Fin 2, startValue = binsB\<rparr>)"
    unfolding render1d_mount_two_bins[OF shifted27_xBins]
    by (simp add: shifted27_stats shifted27_bins)
  have x: "xBins1d shifted27 (Key ''x'') = Fin (real 2)"
    by (simp add: shifted27_xBins)
  have m: "map2 (\<lambda>b c. b\<lparr>data := data b @ data c\<rparr>) binsA binsB = binsAB"
    by (simp add: binsA_def binsB_def binsAB_def)
  have 3: "render1d (Some \<lparr>startDeps = Fin 2, startValue = binsA\<rparr>) shifted27 (Key ''x'') =
      Inr (binsAB, \<lparr>startDeps = Fin 2, startValue = binsAB\<rparr>)"
    using render1d_reuses_start[OF x, of "\<lparr>startDeps = Fin 2, startValue = binsA\<rparr>"]
    by (simp add: shifted27_stats shifted27_bins m) (simp add: binsA_def)
  have 4: "sum_list (map (\<lambda>b. length (data b)) binsAB) = 10"
    by (simp add: binsAB_def)
  have 5: "length (filter (\<lambda>p. finiteNumber (call (attrScale shifted27 (Key ''x'') noOverride) p))
             shifted27) = 5"
    by (simp add: shifted27_stats shifted27_finite)
  from 1 2 3 4 5 show ?thesis
    by simp
qed

section \<open>Every data set of zero range\<close>

text \<open>
  The failures of C3 and C7 are not particular to one data set. When the values of the
  \<open>x\<close> accessor have zero range, the one-dimensional bin count is \<open>NaN\<close> or 0 and the
  two-dimensional one is \<open>NaN\<close>; no bin is seeded, every record is normalised to 0, and the
  first record that is binned raises the \<open>TypeError\<close>.
\<close>

lemma xBins1d_zero_range:
  assumes "rangeS (attrStats points x) = 0"
  shows "xBins1d points x = NaN \<or> xBins1d points x = Fin 0"
proof (cases "stdev (attrStats points x)")
  case None
  with assms show ?thesis
    by (simp add: xBins1d_def xBinWidth1d_def)
next
  case (Some sd)
  from attrStats_stdev_Some[OF Some] have sd: "0 < sd"
    and c: "2 \<le> length (sortedValuesOf points x)"
    by auto
  with length_sortedValuesOf[of points x] have "2 \<le> length points"
    by linarith
  then have "0 < real (length points)"
    by linarith
  then have "0 < real (length points) powr (1 / 3)"
    by simp
  with sd Some assms show ?thesis
    by (simp add: xBins1d_def xBinWidth1d_def)
qed

lemma call_zero_range:
  assumes "rangeS (attrStats points x) = 0"
  shows "call (attrScale points x noOverride) p = Some (Fin 0)"
  using assms by (simp add: attrScale_fn_def scaleTo_def Let_def attrStats_range_eq)

lemma bins1d_zero_range_raises:
  assumes "rangeS (attrStats points x) = 0" and "points \<noteq> []"
  shows "bins1d points x = Inl TypeError"
proof -
  from assms(2) obtain p ps where ps: "points = p # ps"
    by (cases points) auto
  let ?s = "attrScale points x noOverride"
  have c: "call ?s p = Some (Fin 0)"
    by (rule call_zero_range[OF assms(1)])
  from xBins1d_zero_range[OF assms(1)] show ?thesis
  proof
    assume n: "xBins1d points x = NaN"
    have "binStep1d ?s NaN [] p = Inl TypeError"
      using c by (simp add: binStep1d_def lodash_eval)
    then show ?thesis
      unfolding bins1d_mount Let_def n
      by (simp add: start1d_def lodash_eval ps[symmetric]) (simp add: ps)
  next
    assume n: "xBins1d points x = Fin 0"
    have "binStep1d ?s (Fin 0) [] p = Inl TypeError"
      using c by (simp add: binStep1d_def lodash_eval nth_js_def)
    then show ?thesis
      unfolding bins1d_mount Let_def n
      by (simp add: start1d_def lodash_eval ps[symmetric]) (simp add: ps)
  qed
qed

lemma xBins2d_zero_range:
  assumes "rangeS (attrStats points x) = 0"
  shows "xBins2d points x = NaN"
proof (cases "stdev (attrStats points x)")
  case None
  with assms show ?thesis
    by (simp add: xBins2d_def xBinWidth2d_def fdWidth_def js_min_def js_max_def)
next
  case (Some sd)
  from attrStats_stdev_Some[OF Some] have sd: "0 < sd"
    and c: "2 \<le> length (sortedValuesOf points x)"
    by auto
  with length_sortedValuesOf[of points x] have "2 \<le> length points"
    by linarith
  then have "0 < real (length points)"
    by linarith
  then have t: "0 < real (length points) powr (1 / 3)"
    by simp
  let ?s = "attrScale points x noOverride"
  let ?w = "3.5 * sd / real (length points) powr (1 / 3)"
  have w: "0 < ?w"
    using sd t by simp
  have "fdWidth ?s (length points) = Fin ?w"
    using Some t by (simp add: fdWidth_def)
  then have "xBinWidth2d ?s (length points) = Fin 0"
    using w assms by (simp add: xBinWidth2d_def js_min_def js_max_def)
  then show ?thesis
    using assms by (simp add: xBins2d_def Let_def)
qed

lemma start2d_NaN: "start2d NaN yBins = []"
  by (simp add: start2d_def lodash_eval)

lemma binStep2d_empty:
  assumes "call xs p = Some (Fin 0)"
  shows "binStep2d xs ys xBins yBins [] p =
     (if finiteNumber (call ys p) then Inl TypeError else Inr [])"
  using assms
  by (cases "call ys p" rule: finiteNumber.cases) (simp_all add: binStep2d_def Let_def)

lemma reduce_binStep2d_empty:
  assumes "\<forall>p\<in>set ps. call xs p = Some (Fin 0)"
    and "\<exists>p\<in>set ps. finiteNumber (call ys p)"
  shows "reduce (binStep2d xs ys xBins yBins) ps [] = Inl TypeError"
  using assms
proof (induction ps)
  case Nil
  then show ?case
    by simp
next
  case (Cons p ps)
  then show ?case
    by (cases "finiteNumber (call ys p)") (simp_all add: binStep2d_empty)
qed

lemma bins2d_zero_range_raises:
  assumes "rangeS (attrStats points x) = 0"
    and "\<exists>p\<in>set points. finiteNumber (call (attrScale points y noOverride) p)"
  shows "bins2d points x y = Inl TypeError"
proof -
  have "\<forall>p\<in>set points. call (attrScale points x noOverride) p = Some (Fin 0)"
    using call_zero_range[OF assms(1)] by blast
  from reduce_binStep2d_empty[OF this assms(2)] show ?thesis
    unfolding bins2d_def Let_def xBins2d_zero_range[OF assms(1)] start2d_NaN
    by simp
qed

section \<open>A step of the line compression\<close>

lemma last_js_snoc [simp]: "last_js (xs @ [x]) = Some x"
  by (simp add: last_js_def nth_js_def)


lemma lastPointOf_nonempty: "lastPointOf compressed = Some lp \<Longrightarrow> compressed \<noteq> []"
  by (auto simp: lastPointOf_def last_js_def)

lemma lastPointOf_snoc_Point [simp]: "lastPointOf (c @ [Point p]) = Some p"
  by (simp add: lastPointOf_def)

lemma lastPointOf_snoc_Run [simp]: "lastPointOf (c @ [Run (ps @ [p])]) = Some p"
  by (simp add: lastPointOf_def)

lemma lastPointOf_snoc_Run2 [simp]: "lastPointOf (c @ [Run [q, p]]) = Some p"
  using lastPointOf_snoc_Run[of c "[q]" p] by simp




lemma newPointOf_simps [simp]:
  "distance (newPointOf lp x y i c k) = sqrt ((x - px lp)\<^sup>2 + (y - py lp)\<^sup>2)"
  "angle (newPointOf lp x y i c k) = Some (atan2 (y - py lp) (x - px lp) * 180 / pi)"
  "px (newPointOf lp x y i c k) = x"
  "py (newPointOf lp x y i c k) = y"
  "index (newPointOf lp x y i c k) = i"
  "color1 (newPointOf lp x y i c k) = color2 lp"
  "color2 (newPointOf lp x y i c k) = c"
  "continuous (newPointOf lp x y i c k) = k"
  by (simp_all add: newPointOf_def Let_def)

text \<open>The step on a point with finite coordinates, after a last point.\<close>

lemma segmentStep_finite:
  assumes "xs point = Some (Fin x)" and "ys point = Some (Fin y)"
    and "lastPointOf compressed = Some lp"
  shows "segmentStep chroma ctx props xs ys compressed (i, point) =
     (let np = newPointOf lp x y i (colorOf ctx point) (continuousOf props point)
      in if keep chroma ctx props lp np
         then (if \<not> dissimilarColors chroma np (colorResolution props) \<and>
                  \<not> dissimilarColors chroma lp (colorResolution props)
               then (case last compressed of
                       Run ps \<Rightarrow> Inr (butlast compressed @ [Run (ps @ [np])])
                     | Point q \<Rightarrow> Inr (compressed @ [Run [lp, np]]))
               else Inr (compressed @ [Point np]))
         else Inr compressed)"
  using assms lastPointOf_nonempty[OF assms(3)]
  by (simp add: segmentStep_def Let_def)

lemma segmentStep_skip:
  "\<not> (finiteNumber (xs point) \<and> finiteNumber (ys point)) \<Longrightarrow>
   segmentStep chroma ctx props xs ys compressed (i, point) = Inr compressed"
  by (auto simp: segmentStep_def split: option.splits jsnum.splits elim: finiteNumber.elims)

lemma segmentStep_first:
  "xs point = Some (Fin x) \<Longrightarrow> ys point = Some (Fin y) \<Longrightarrow>
   segmentStep chroma ctx props xs ys [] (i, point) =
     Inr [Point (firstPointOf x y i (colorOf ctx point))]"
  by (simp add: segmentStep_def)

lemma butlast_snoc_neq:
  assumes "compressed \<noteq> []" and "last compressed = Run ps"
  shows "butlast compressed @ [Run (ps @ [np])] \<noteq> compressed"
proof
  assume "butlast compressed @ [Run (ps @ [np])] = compressed"
  then have "last compressed = Run (ps @ [np])"
    by (metis last_snoc)
  with assms(2) show False
    by simp
qed

text \<open>A point is retained exactly when \<open>keep\<close> is true.\<close>

lemma retained_iff_keep:
  assumes "xs point = Some (Fin x)" and "ys point = Some (Fin y)"
    and "lastPointOf compressed = Some lp"
  shows "retained chroma ctx props xs ys compressed (i, point) \<longleftrightarrow>
         keep chroma ctx props lp
           (newPointOf lp x y i (colorOf ctx point) (continuousOf props point))"
proof -
  have ne: "compressed \<noteq> []"
    by (rule lastPointOf_nonempty[OF assms(3)])
  note st = segmentStep_finite[where xs=xs and ys=ys and point=point and chroma=chroma
      and ctx=ctx and props=props and i=i, OF assms]
  show ?thesis
    unfolding retained_def st Let_def using ne
    by (auto simp: butlast_snoc_neq split: segment.splits)
qed


section \<open>The keep decision\<close>

text \<open>
  C1, as amended. A point with finite coordinates that follows a last retained point whose
  incoming angle is not 0 is retained if and only if its distance to the last retained point
  is at least the stroke width and at least one of these holds: the colours of the new
  transition are dissimilar; its continuity flag differs from that of the last retained
  point; the distance is at least the resolution for this point; the last retained point has
  an incoming angle and it differs from the incoming angle of the point by at least the angle
  resolution for this point.
\<close>

theorem retained_iff_keep_rule:
  assumes "xs point = Some (Fin x)" and "ys point = Some (Fin y)"
    and "lastPointOf compressed = Some lp" and "angle lp \<noteq> Some 0"
  shows "retained chroma ctx props xs ys compressed (i, point) \<longleftrightarrow>
     (let np = newPointOf lp x y i (colorOf ctx point) (continuousOf props point)
      in strokeWidth props \<le> distance np \<and>
         (dissimilarColors chroma np (colorResolution props) \<or>
          continuous np \<noteq> continuous lp \<or>
          resolutionForThisPoint ctx props x y \<le> distance np \<or>
          (\<exists>la a. angle lp = Some la \<and> angle np = Some a \<and>
                  angleResolutionForThisPoint ctx x y \<le> \<bar>la - a\<bar>)))"
proof -
  note r = retained_iff_keep[where xs=xs and ys=ys and point=point and chroma=chroma
      and ctx=ctx and props=props and i=i, OF assms(1-3)]
  show ?thesis
    unfolding r keep_def Let_def using assms(4)
    by (cases "angle lp") auto
qed

text \<open>
  After the points \<open>(0, 1)\<close> and \<open>(0, 11)\<close> the last retained point has the incoming
  angle 90. With the resolution 50 and the stroke width 5, the point \<open>(10, 11)\<close>, at the
  distance 10 and with the incoming angle 0, is retained: by the change of the angle.
\<close>

theorem retained_iff_keep_rule_witness:
  "lastPointOf [Point startA, Run [startA, upB]] = Some upB \<and> angle upB = Some 90 \<and>
   retained stepChroma (pixelCtx 100 100) (lineProps 50 5) pixelX pixelY
     [Point startA, Run [startA, upB]] (2, pt 10 11)"
proof -
  have 1: "pixelX (pt 10 11) = Some (Fin 10)" and 2: "pixelY (pt 10 11) = Some (Fin 11)"
    by (simp_all add: line_eval)
  have 3: "lastPointOf [Point startA, Run [startA, upB]] = Some upB"
    by (simp add: lastPointOf_def last_js_def nth_js_def)
  have a: "angle upB = Some 90"
    by (simp add: line_eval)
  then have 4: "angle upB \<noteq> Some 0"
    by simp
  have "retained stepChroma (pixelCtx 100 100) (lineProps 50 5) pixelX pixelY
     [Point startA, Run [startA, upB]] (2, pt 10 11)"
    unfolding retained_iff_keep_rule[where xs=pixelX and ys=pixelY and point="pt 10 11",
        OF 1 2 3 4]
    by (simp add: line_eval)
  with 3 a show ?thesis
    by simp
qed

text \<open>
  C1 as stated fails. With the resolution 10 and the stroke width 5, the points \<open>(0, 1)\<close> and
  \<open>(10, 1)\<close> are retained; the point \<open>(20, 1)\<close> is retained too, though the rule of the
  specification rejects it: the colours are equal, the continuity flag and the angle are
  unchanged, and the distance 10 does not exceed the resolution 10.
\<close>

theorem keep_rule_counterexample:
  "compressedOf stepChroma (pixelCtx 100 100) (lineProps 10 5) [pt 0 1, pt 10 1] =
     Inr [Point startA, Run [startA, rightB]] \<and>
   retained stepChroma (pixelCtx 100 100) (lineProps 10 5) pixelX pixelY
     [Point startA, Run [startA, rightB]] (2, pt 20 1) \<and>
   \<not> keepAsSpecified stepChroma (pixelCtx 100 100) (lineProps 10 5) rightB
        (newPointOf rightB 20 1 2 ''black'' True)"
  by (simp add: line_eval keepAsSpecified_def upt_rec)

text \<open>
  The slip left out of the amended claim: a last retained point with the incoming angle 0 (a
  move to the right) switches the angle test off, whatever the new angle is.
\<close>

lemma keep_after_angle_zero:
  assumes "angle lp = Some 0"
  shows "keep chroma ctx props lp np \<longleftrightarrow>
     strokeWidth props \<le> distance np \<and>
     (dissimilarColors chroma np (colorResolution props) \<or>
      continuous np \<noteq> continuous lp \<or>
      resolutionForThisPoint ctx props (px np) (py np) \<le> distance np)"
  using assms by (simp add: keep_def)

section \<open>The thresholds inside and outside the viewport\<close>

text \<open>
  C8, as amended. The point is inside the viewport when \<open>_.inRange(x, 0, width)\<close> and
  \<open>_.inRange(y, 0, height)\<close> hold: \<open>0 \<le> x < width\<close> and \<open>0 \<le> y < height\<close> for a
  width and a height that are not negative, the bounds swapped for a negative one. For a point
  with finite coordinates that follows a last retained point whose incoming angle is not 0,
  the keep decision compares the distance with the configured resolution inside the viewport
  and with the constant 50 outside it, and the change of the angle with
  \<open>ANGLE_RESOLUTION\<close> inside and four times \<open>ANGLE_RESOLUTION\<close> outside.
\<close>

theorem retained_thresholds_by_viewport:
  assumes "xs point = Some (Fin x)" and "ys point = Some (Fin y)"
    and "lastPointOf compressed = Some lp" and "angle lp \<noteq> Some 0"
  shows "retained chroma ctx props xs ys compressed (i, point) \<longleftrightarrow>
     (let inside = (min 0 (width ctx) \<le> x \<and> x < max 0 (width ctx) \<and>
                    min 0 (height ctx) \<le> y \<and> y < max 0 (height ctx));
          distanceThreshold = (if inside then resolution props else 50);
          angleThreshold = (if inside then ANGLE_RESOLUTION else 4 * ANGLE_RESOLUTION);
          d = sqrt ((x - px lp)\<^sup>2 + (y - py lp)\<^sup>2);
          a = atan2 (y - py lp) (x - px lp) * 180 / pi
      in strokeWidth props \<le> d \<and>
         (dissimilarColors chroma
            (newPointOf lp x y i (colorOf ctx point) (continuousOf props point))
            (colorResolution props) \<or>
          continuousOf props point \<noteq> continuous lp \<or>
          distanceThreshold \<le> d \<or>
          (\<exists>la. angle lp = Some la \<and> angleThreshold \<le> \<bar>la - a\<bar>)))"
proof -
  have on: "onScreen ctx x y \<longleftrightarrow>
      min 0 (width ctx) \<le> x \<and> x < max 0 (width ctx) \<and>
      min 0 (height ctx) \<le> y \<and> y < max 0 (height ctx)"
    by (simp add: onScreen_def inRange_def)
  note r = retained_iff_keep[where xs=xs and ys=ys and point=point and chroma=chroma
      and ctx=ctx and props=props and i=i, OF assms(1-3)]
  show ?thesis
    unfolding r keep_def Let_def resolutionForThisPoint_def angleResolutionForThisPoint_def
      on[symmetric]
    using assms(4)
    by (cases "angle lp") (auto simp: ANGLE_RESOLUTION_def)
qed

text \<open>
  In a viewport of height 20 the point \<open>(0, 21)\<close> is outside. It follows the last retained
  point \<open>(0, 11)\<close> at the distance 10 and with the same angle; with the resolution 0 it is
  not retained, the distance being below 50.
\<close>

theorem retained_thresholds_witness:
  "lastPointOf [Point startA, Run [startA, upB]] = Some upB \<and> angle upB = Some 90 \<and>
   \<not> retained stepChroma (pixelCtx 100 20) (lineProps 0 5) pixelX pixelY
       [Point startA, Run [startA, upB]] (2, pt 0 21)"
proof -
  have 1: "pixelX (pt 0 21) = Some (Fin 0)" and 2: "pixelY (pt 0 21) = Some (Fin 21)"
    by (simp_all add: line_eval)
  have 3: "lastPointOf [Point startA, Run [startA, upB]] = Some upB"
    by (simp add: lastPointOf_def last_js_def nth_js_def)
  have a: "angle upB = Some 90"
    by (simp add: line_eval)
  then have 4: "angle upB \<noteq> Some 0"
    by simp
  have "\<not> retained stepChroma (pixelCtx 100 20) (lineProps 0 5) pixelX pixelY
     [Point startA, Run [startA, upB]] (2, pt 0 21)"
    unfolding retained_thresholds_by_viewport[where xs=pixelX and ys=pixelY
        and point="pt 0 21", OF 1 2 3 4]
    by (simp add: line_eval)
  with 3 a show ?thesis
    by simp
qed

text \<open>
  C8 as stated fails. With the resolution 0, the threshold for the point \<open>(0, 21)\<close> outside
  a viewport of height 20 is 50, not \<open>resolution * 10 = 0\<close>; and of the points \<open>(0, 1)\<close>,
  \<open>(0, 11)\<close>, \<open>(0, 21)\<close> the third, 10 pixels from the second, is dropped.
\<close>

theorem offscreen_threshold_counterexample:
  "\<not> onScreen (pixelCtx 100 20) 0 21 \<and>
   resolutionForThisPoint (pixelCtx 100 20) (lineProps 0 5) 0 21 = 50 \<and>
   resolutionAsSpecified (pixelCtx 100 20) (lineProps 0 5) 0 21 = 0 \<and>
   compressedOf stepChroma (pixelCtx 100 20) (lineProps 0 5) [pt 0 1, pt 0 11, pt 0 21] =
     Inr [Point startA, Run [startA, upB]]"
  by (simp add: resolutionAsSpecified_def line_eval upt_rec)

text \<open>
  A negative width swaps the bounds: with the width \<open>-10\<close> the point \<open>(-5, 5)\<close> is
  inside the viewport and the point \<open>(5, 5)\<close> is outside.
\<close>

lemma onScreen_negative_width:
  "onScreen (pixelCtx (- 10) 20) (- 5) 5 \<and> \<not> onScreen (pixelCtx (- 10) 20) 5 5"
  by (simp add: onScreen_def inRange_def pixelCtx_def)

section \<open>The resolution and the number of retained points\<close>

lemma keep_antimono:
  assumes "r1 \<le> r2" and "keep chroma ctx (props\<lparr>resolution := r2\<rparr>) lp np"
  shows "keep chroma ctx (props\<lparr>resolution := r1\<rparr>) lp np"
  using assms by (auto simp: keep_def resolutionForThisPoint_def split: option.splits)

lemma continuousOf_resolution [simp]:
  "continuousOf (props\<lparr>resolution := r\<rparr>) point = continuousOf props point"
  by (simp add: continuousOf_def)

text \<open>
  C9, as amended. The keep decision of one step is monotone in the resolution: from the same
  retained points, a point that is retained with the resolution \<open>r2\<close> is retained with every
  resolution \<open>r1 \<le> r2\<close>.
\<close>

theorem retained_antimono_resolution:
  assumes "r1 \<le> r2"
    and "retained chroma ctx (props\<lparr>resolution := r2\<rparr>) xs ys compressed ip"
  shows "retained chroma ctx (props\<lparr>resolution := r1\<rparr>) xs ys compressed ip"
proof -
  obtain i point where ip: "ip = (i, point)"
    by (cases ip)
  show ?thesis
  proof (cases "finiteNumber (xs point) \<and> finiteNumber (ys point)")
    case False
    then show ?thesis
      using assms(2) unfolding ip retained_def by (simp add: segmentStep_skip)
  next
    case True
    then obtain x y where xy: "xs point = Some (Fin x)" "ys point = Some (Fin y)"
      by (auto elim!: finiteNumber.elims)
    show ?thesis
    proof (cases "lastPointOf compressed")
      case None
      show ?thesis
      proof (cases "compressed = []")
        case True
        then show ?thesis
          unfolding ip retained_def using xy by (simp add: segmentStep_first)
      next
        case False
        with None xy assms(2) show ?thesis
          unfolding ip retained_def by (simp add: segmentStep_def)
      qed
    next
      case (Some lp)
      note a = retained_iff_keep[where xs=xs and ys=ys and point=point and chroma=chroma
          and ctx=ctx and i=i, OF xy Some]
      from assms show ?thesis
        unfolding ip a by (simp add: keep_antimono)
    qed
  qed
qed

text \<open>
  After the points \<open>(0, 1)\<close> and \<open>(100, 1)\<close>, the point \<open>(136, 1)\<close> is retained with the
  resolution 30, and so with the resolution 20.
\<close>

theorem retained_antimono_resolution_witness:
  "retained stepChroma (pixelCtx 1000 1000) (lineProps 30 20) pixelX pixelY
     [Point startA, Run [startA, farB]] (3, pt 136 1) \<and>
   retained stepChroma (pixelCtx 1000 1000) (lineProps 20 20) pixelX pixelY
     [Point startA, Run [startA, farB]] (3, pt 136 1)"
proof -
  have le: "(20::real) \<le> 30"
    by simp
  have p: "lineProps 30 20 = (lineProps 30 20)\<lparr>resolution := 30\<rparr>"
    "lineProps 20 20 = (lineProps 30 20)\<lparr>resolution := 20\<rparr>"
    by (simp_all add: lineProps_def)
  have r: "retained stepChroma (pixelCtx 1000 1000) ((lineProps 30 20)\<lparr>resolution := 30\<rparr>)
     pixelX pixelY [Point startA, Run [startA, farB]] (3, pt 136 1)"
    by (simp add: line_eval)
  from retained_antimono_resolution[OF le r] r show ?thesis
    using p by simp
qed

text \<open>
  C9 as stated fails. Of the six points of \<open>zigzag\<close>, with the stroke width 20, three are
  retained with the resolution 20 and five with the resolution 30: the larger resolution
  skips the third point, and the points after it are then far enough from the last retained
  one.
\<close>

theorem kept_count_counterexample:
  "keptCountOf stepChroma (pixelCtx 1000 1000) (lineProps 20 20) zigzag = Some 3 \<and>
   keptCountOf stepChroma (pixelCtx 1000 1000) (lineProps 30 20) zigzag = Some 5"
  by (simp add: keptCountOf_def keptCount_def zigzag_def line_eval upt_rec)

section \<open>The first point of the compressed line\<close>







section \<open>Zero resolution\<close>






end
